theory Spec2Isabelle
  imports Main "HOL-Library.AList"
begin

section \<open>Python values, exceptions and strings\<close>

text \<open>
  The scripts under \<^verbatim>\<open>macro/\<close> are Python. A Python \<^verbatim>\<open>str\<close> is modelled as a HOL
  \<^typ>\<open>string\<close> (code points below 256), a Python \<^verbatim>\<open>int\<close> as \<^typ>\<open>int\<close>, a
  \<^verbatim>\<open>dict\<close> as an association list kept in insertion order (\<^const>\<open>AList.update\<close>
  replaces the value of a key that is present and appends a new key, as \<^verbatim>\<open>dict.update\<close>
  does). Every exception the code can raise is a value of \<open>exn\<close>.
\<close>

datatype exn =
    ValueError string
  | RuntimeError string
  | RuntimeWarning string
  | TypeError string
  | KeyError string
  | IndexError
  | OverflowError
  | UnicodeError
  | OSError string
  | ZeroDivisionError

text \<open>
  A Python float is kept as data: not-a-number, the two infinities, or a finite value
  \<open>Finite neg m e\<close>, which stands for \<open>m * 2^e\<close>, negated when \<open>neg\<close> holds. The rounded
  operations on floats (parsing, printing, product, quotient, square root) are parameters
  of the model.
\<close>

datatype pyfloat = NaN | PosInf | NegInf | Finite bool nat int

datatype pyval = PStr string | PInt int | PFloat pyfloat

text \<open>The characters for which \<^verbatim>\<open>str.isspace\<close> holds, among the code points below 256.\<close>

definition whitespace :: "char list" where
  "whitespace = [CHR 0x09, CHR 0x0A, CHR 0x0B, CHR 0x0C, CHR 0x0D, CHR 0x1C, CHR 0x1D,
                 CHR 0x1E, CHR 0x1F, CHR 0x20, CHR 0x85, CHR 0xA0]"

definition is_space :: "char \<Rightarrow> bool" where
  "is_space c \<longleftrightarrow> c \<in> set whitespace"

definition is_digit :: "char \<Rightarrow> bool" where
  "is_digit c \<longleftrightarrow> c \<in> set ''0123456789''"

definition digit_val :: "char \<Rightarrow> int" where
  "digit_val c = int (of_char c) - 48"

definition digit_char :: "nat \<Rightarrow> char" where
  "digit_char d = ''0123456789'' ! d"

text \<open>\<^verbatim>\<open>str(n)\<close> for an integer: decimal digits, with a minus sign when negative.\<close>

fun str_nat :: "nat \<Rightarrow> string" where
  "str_nat n = (if n < 10 then [digit_char n] else str_nat (n div 10) @ [digit_char (n mod 10)])"

definition str_int :: "int \<Rightarrow> string" where
  "str_int i = (if i < 0 then CHR ''-'' # str_nat (nat (- i)) else str_nat (nat i))"

text \<open>
  \<^verbatim>\<open>f"{segment:02}"\<close>: sign-aware zero padding to a minimum width of 2. The sign counts
  towards the width, so a negative number is never padded.
\<close>

definition format_02 :: "int \<Rightarrow> string" where
  "format_02 i =
     (if i < 0 then CHR ''-'' # str_nat (nat (- i))
      else replicate (2 - length (str_nat (nat i))) (CHR ''0'') @ str_nat (nat i))"

text \<open>
  \<^verbatim>\<open>int(s)\<close> on a string. Leading and trailing whitespace is dropped; the characters
  that \<^verbatim>\<open>int\<close> takes for whitespace are those of \<^verbatim>\<open>str.isspace\<close> except the four
  separators \<open>0x1C\<close> to \<open>0x1F\<close>. One sign is allowed. The rest must be decimal digits,
  with single underscores allowed between two digits, and at most 4300 digits (the
  default of \<^verbatim>\<open>sys.int_max_str_digits\<close>); anything else raises \<^verbatim>\<open>ValueError\<close>.
\<close>

definition int_whitespace :: "char list" where
  "int_whitespace = [CHR 0x09, CHR 0x0A, CHR 0x0B, CHR 0x0C, CHR 0x0D, CHR 0x20, CHR 0x85,
                     CHR 0xA0]"

definition is_int_space :: "char \<Rightarrow> bool" where
  "is_int_space c \<longleftrightarrow> c \<in> set int_whitespace"

definition int_strip :: "string \<Rightarrow> string" where
  "int_strip s = rev (dropWhile is_int_space (rev (dropWhile is_int_space s)))"

text \<open>The digits of a digit string, its underscores removed, if it is well formed.\<close>

fun digits_of :: "string \<Rightarrow> string option" where
  "digits_of [] = None"
| "digits_of [c] = (if is_digit c then Some [c] else None)"
| "digits_of (c # d # ds) =
     (if is_digit c then
        (if d = CHR ''_'' then map_option (Cons c) (digits_of ds)
         else map_option (Cons c) (digits_of (d # ds)))
      else None)"

definition digits_val :: "string \<Rightarrow> int" where
  "digits_val ds = foldl (\<lambda>acc c. 10 * acc + digit_val c) 0 ds"

definition int_max_str_digits :: nat where
  "int_max_str_digits = 4300"

definition int_of_digits :: "string \<Rightarrow> exn + int" where
  "int_of_digits ds =
     (case digits_of ds of
        None \<Rightarrow> Inl (ValueError ''invalid literal for int() with base 10'')
      | Some d \<Rightarrow>
          (if length d > int_max_str_digits then
             Inl (ValueError ''Exceeds the limit (4300 digits) for integer string conversion'')
           else Inr (digits_val d)))"

definition py_int :: "string \<Rightarrow> exn + int" where
  "py_int s =
     (case int_strip s of
        c # ds \<Rightarrow>
          (if c = CHR ''-'' then (case int_of_digits ds of Inl e \<Rightarrow> Inl e | Inr v \<Rightarrow> Inr (- v))
           else if c = CHR ''+'' then int_of_digits ds
           else int_of_digits (c # ds))
      | [] \<Rightarrow> Inl (ValueError ''invalid literal for int() with base 10''))"

text \<open>\<^verbatim>\<open>s[i]\<close> for a non-negative index: \<^verbatim>\<open>IndexError\<close> past the end.\<close>

definition char_at :: "string \<Rightarrow> nat \<Rightarrow> exn + char" where
  "char_at s i = (if i < length s then Inr (s ! i) else Inl IndexError)"

section \<open>Tile-code decoding\<close>

text \<open>
  The body of the loop of \<^verbatim>\<open>Pedestal.import_tq_rates\<close> (mapfile.py) that turns the
  six-digit tile code into the detector name, in the order of the source:
  \<^verbatim>\<open>flush = tile[:2]\<close>, \<^verbatim>\<open>num = int(tile[2:4])\<close>, the segment, \<^verbatim>\<open>ring = tile[4]\<close>,
  \<^verbatim>\<open>pos = tile[5]\<close>, then the name and the \<^verbatim>\<open>match pos\<close> suffix.
\<close>

definition segment_of :: "string \<Rightarrow> int \<Rightarrow> int" where
  "segment_of flush num = (if flush = ''11'' then 2 * num else 2 * num - 1)"

definition detector_name :: "string \<Rightarrow> exn + string" where
  "detector_name tile =
     (let flush = take 2 tile in
      case py_int (take 2 (drop 2 tile)) of
        Inl e \<Rightarrow> Inl e
      | Inr num \<Rightarrow>
          let segment = segment_of flush num in
          (case char_at tile 4 of
             Inl e \<Rightarrow> Inl e
           | Inr ring \<Rightarrow>
               (case char_at tile 5 of
                  Inl e \<Rightarrow> Inl e
                | Inr pos \<Rightarrow>
                    let detector = ''TQ'' @ format_02 segment @ ''_R'' @ [ring] in
                    Inr (if pos = CHR ''1'' then detector @ ''L''
                         else if pos = CHR ''2'' then detector @ ''C''
                         else if pos = CHR ''3'' then detector @ ''R''
                         else detector))))"

text \<open>
  The same lines as they stand in \<^verbatim>\<open>r5weights\<close>, \<^verbatim>\<open>r2weights\<close> and \<^verbatim>\<open>r5otcweights\<close>
  (tq\_weights.py): the name is built from lower-case pieces.
\<close>

definition tq_weights_detector :: "string \<Rightarrow> exn + string" where
  "tq_weights_detector tile =
     (let flush = take 2 tile in
      case py_int (take 2 (drop 2 tile)) of
        Inl e \<Rightarrow> Inl e
      | Inr num \<Rightarrow>
          let segment = segment_of flush num in
          (case char_at tile 4 of
             Inl e \<Rightarrow> Inl e
           | Inr ring \<Rightarrow>
               (case char_at tile 5 of
                  Inl e \<Rightarrow> Inl e
                | Inr pos \<Rightarrow>
                    let detector = ''tq'' @ format_02 segment @ ''_r'' @ [ring] in
                    Inr (if pos = CHR ''1'' then detector @ ''l''
                         else if pos = CHR ''2'' then detector @ ''c''
                         else if pos = CHR ''3'' then detector @ ''r''
                         else detector))))"

text \<open>
  The decoding as the specification words it, for a code \<open>FFNNRP\<close>: the segment number
  written in decimal and padded with zeros on the left to two characters, between the
  prefix and the ring, followed by the position suffix.
\<close>

definition zero_padded_2 :: "int \<Rightarrow> string" where
  "zero_padded_2 i = replicate (2 - length (str_int i)) (CHR ''0'') @ str_int i"

definition spec_suffix :: "char \<Rightarrow> string" where
  "spec_suffix P =
     (if P = CHR ''1'' then ''L'' else if P = CHR ''2'' then ''C''
      else if P = CHR ''3'' then ''R'' else [])"

definition spec_detector :: "string \<Rightarrow> int \<Rightarrow> char \<Rightarrow> char \<Rightarrow> string" where
  "spec_detector FF NN R P =
     ''TQ'' @ zero_padded_2 (if FF = ''11'' then 2 * NN else 2 * NN - 1) @ ''_R'' @ [R]
       @ spec_suffix P"

text \<open>The lower-case variant that tq\_weights.py prints.\<close>

definition spec_suffix_lower :: "char \<Rightarrow> string" where
  "spec_suffix_lower P =
     (if P = CHR ''1'' then ''l'' else if P = CHR ''2'' then ''c''
      else if P = CHR ''3'' then ''r'' else [])"

definition spec_detector_lower :: "string \<Rightarrow> int \<Rightarrow> char \<Rightarrow> char \<Rightarrow> string" where
  "spec_detector_lower FF NN R P =
     ''tq'' @ zero_padded_2 (if FF = ''11'' then 2 * NN else 2 * NN - 1) @ ''_r'' @ [R]
       @ spec_suffix_lower P"

section \<open>Python sequences\<close>

text \<open>
  Indexing with a Python integer: a negative index counts from the end, and an index
  outside \<open>-len .. len - 1\<close> raises \<^verbatim>\<open>IndexError\<close> (\<open>None\<close> here).
\<close>

definition py_idx :: "nat \<Rightarrow> int \<Rightarrow> nat option" where
  "py_idx len i =
     (if 0 \<le> i \<and> i < int len then Some (nat i)
      else if - int len \<le> i \<and> i < 0 then Some (nat (int len + i))
      else None)"

definition py_index :: "'a list \<Rightarrow> int \<Rightarrow> exn + 'a" where
  "py_index xs i = (case py_idx (length xs) i of None \<Rightarrow> Inl IndexError | Some k \<Rightarrow> Inr (xs ! k))"

text \<open>
  Slicing \<^verbatim>\<open>xs[a:b]\<close>: a negative bound counts from the end, and both bounds are
  clamped to \<open>0 .. len\<close>; slicing never raises.
\<close>

definition slice_bound :: "nat \<Rightarrow> int \<Rightarrow> nat" where
  "slice_bound len i = (if i < 0 then nat (int len + i) else min len (nat i))"

definition py_slice :: "'a list \<Rightarrow> int \<Rightarrow> int \<Rightarrow> 'a list" where
  "py_slice xs a b = drop (slice_bound (length xs) a) (take (slice_bound (length xs) b) xs)"

definition slice_from :: "'a list \<Rightarrow> int \<Rightarrow> 'a list" where
  "slice_from xs a = drop (slice_bound (length xs) a) xs"

definition slice_to :: "'a list \<Rightarrow> int \<Rightarrow> 'a list" where
  "slice_to xs b = take (slice_bound (length xs) b) xs"

text \<open>\<^verbatim>\<open>d[k]\<close> on a dict: \<^verbatim>\<open>KeyError\<close> for a missing key.\<close>

definition dict_get :: "(string \<times> 'v) list \<Rightarrow> string \<Rightarrow> exn + 'v" where
  "dict_get d k = (case map_of d k of None \<Rightarrow> Inl (KeyError k) | Some v \<Rightarrow> Inr v)"

text \<open>
  \<^verbatim>\<open>str.split()\<close> without arguments: the maximal runs of non-whitespace characters.
  The first argument is the token being collected.
\<close>

fun split_from :: "string \<Rightarrow> string \<Rightarrow> string list" where
  "split_from tok [] = (if tok = [] then [] else [tok])"
| "split_from tok (c # cs) =
     (if is_space c then (if tok = [] then split_from [] cs else tok # split_from [] cs)
      else split_from (tok @ [c]) cs)"

definition py_split :: "string \<Rightarrow> string list" where
  "py_split s = split_from [] s"

text \<open>
  The lines that successive \<^verbatim>\<open>readline()\<close> calls return on a text file opened with the
  default \<^verbatim>\<open>newline=None\<close>: a line ends at \<open>\n\<close>, \<open>\r\n\<close> or \<open>\r\<close>, each handed over as
  \<open>\n\<close>, and a last line without terminator is returned as it is. After the last line
  \<^verbatim>\<open>readline()\<close> returns the empty string.
\<close>

fun lines_from :: "string \<Rightarrow> string \<Rightarrow> string list" where
  "lines_from cur [] = (if cur = [] then [] else [cur])"
| "lines_from cur [c] =
     (if c = CHR 0x0A \<or> c = CHR 0x0D then [cur @ [CHR 0x0A]] else [cur @ [c]])"
| "lines_from cur (c # d # ds) =
     (if c = CHR 0x0A then (cur @ [CHR 0x0A]) # lines_from [] (d # ds)
      else if c = CHR 0x0D then
        (if d = CHR 0x0A then (cur @ [CHR 0x0A]) # lines_from [] ds
         else (cur @ [CHR 0x0A]) # lines_from [] (d # ds))
      else lines_from (cur @ [c]) (d # ds))"

definition readlines :: "string \<Rightarrow> string list" where
  "readlines text = lines_from [] text"

text \<open>\<^verbatim>\<open>sep.join(xs)\<close>.\<close>

fun join :: "string \<Rightarrow> string list \<Rightarrow> string" where
  "join sep [] = []"
| "join sep [x] = x"
| "join sep (x # y # ys) = x @ sep @ join sep (y # ys)"

text \<open>
  The format specifications \<^verbatim>\<open>:12\<close> (left-aligned for a string), \<^verbatim>\<open>:>14\<close> and \<^verbatim>\<open>:^14\<close>:
  padding with spaces up to the width, nothing cut off. Centring puts the smaller half
  of the padding on the left.
\<close>

definition ljust :: "nat \<Rightarrow> string \<Rightarrow> string" where
  "ljust w s = s @ replicate (w - length s) (CHR '' '')"

definition rjust :: "nat \<Rightarrow> string \<Rightarrow> string" where
  "rjust w s = replicate (w - length s) (CHR '' '') @ s"

definition center :: "nat \<Rightarrow> string \<Rightarrow> string" where
  "center w s =
     replicate ((w - length s) div 2) (CHR '' '') @ s
       @ replicate ((w - length s) - (w - length s) div 2) (CHR '' '')"

section \<open>The environment\<close>

text \<open>
  What the code asks of the operating system and of the Python runtime, over a state of
  the outside world \<open>'w\<close>. Each operation that can raise returns the exception, if any,
  and the world it leaves behind.
  \<^item> \<open>os_isfile\<close>, \<open>os_rename\<close>, \<open>os_remove\<close>: \<^verbatim>\<open>os.path.isfile\<close>, \<^verbatim>\<open>os.rename\<close>,
    \<^verbatim>\<open>os.remove\<close>;
  \<^item> \<open>write_ascii\<close>: \<^verbatim>\<open>open(path, "w", encoding="ascii")\<close>, one \<^verbatim>\<open>write\<close> per string of
    the list, and the close at the end of the \<^verbatim>\<open>with\<close> block;
  \<^item> \<open>read_ascii\<close>: \<^verbatim>\<open>open(path, encoding="ascii")\<close> and the decoded text of the file;
  \<^item> \<open>read_csv\<close>: \<^verbatim>\<open>open(path, 'r', encoding="utf8")\<close>, which may raise, and then the
    rows that \<^verbatim>\<open>csv.DictReader\<close> yields one by one while the loop runs, a field that the
    line lacks being \<^verbatim>\<open>None\<close>. The reader reads the file as it goes: the rows end
    either with the file or with an exception that the reader raises in place of the
    next row;
  \<^item> \<open>float_str\<close>: the text of a float under an alignment-only format specification;
  \<^item> \<open>csv_rate\<close>: the floating-point expression
    \<^verbatim>\<open>int(float(s) * 10**9 / 65)\<close> of \<^verbatim>\<open>import_tq_rates\<close>, with the exceptions of
    \<^verbatim>\<open>float\<close> and \<^verbatim>\<open>int\<close>.
\<close>

type_synonym csvrow = "(string \<times> string option) list"

record 'w env =
  os_isfile :: "'w \<Rightarrow> string \<Rightarrow> bool"
  os_rename :: "string \<Rightarrow> string \<Rightarrow> 'w \<Rightarrow> exn option \<times> 'w"
  os_remove :: "string \<Rightarrow> 'w \<Rightarrow> exn option \<times> 'w"
  write_ascii :: "string \<Rightarrow> string list \<Rightarrow> 'w \<Rightarrow> exn option \<times> 'w"
  read_ascii :: "string \<Rightarrow> 'w \<Rightarrow> exn + string"
  read_csv :: "string \<Rightarrow> 'w \<Rightarrow> exn + (csvrow list \<times> exn option)"
  float_str :: "pyfloat \<Rightarrow> string"
  csv_rate :: "string \<Rightarrow> exn + int"

section \<open>The class Pedestal\<close>

text \<open>The attributes that \<^verbatim>\<open>__init__\<close> creates, under their names.\<close>

record pedestal =
  cols :: "(string \<times> nat) list"
  entries :: "pyval list list"
  headers :: "string list"
  name :: string
  names :: "string list"
  path :: string
  rows :: "(string \<times> nat) list"

subsection \<open>Construction\<close>

text \<open>
  The \<^verbatim>\<open>while True\<close> loop that reads the file name, from \<open>i = -5\<close> downwards. The result
  is the pair of \<^verbatim>\<open>self.name\<close> and \<^verbatim>\<open>self.path\<close>; the path stays empty when the loop
  leaves through \<^verbatim>\<open>abs(i) == len(filepath)\<close>.
\<close>

function name_loop :: "string \<Rightarrow> int \<Rightarrow> exn + (string \<times> string)" where
  "name_loop filepath i =
     (case py_index filepath i of
        Inl e \<Rightarrow> Inl e
      | Inr char \<Rightarrow>
          if char = CHR ''/'' then
            Inr (py_slice filepath (int (length filepath) + (i + 1)) (- 4),
                 slice_to filepath (int (length filepath) + (i + 1)))
          else if \<bar>i\<bar> = int (length filepath) then Inr (slice_to filepath (- 4), [])
          else if \<bar>i\<bar> > int (length filepath) then
            Inl (RuntimeError ''An unexpected error occurred while reading the file name.'')
          else name_loop filepath (i - 1))"
  by pat_completeness auto
termination
  by (relation "measure (\<lambda>(filepath, i). nat (int (length filepath) + i))") auto

declare name_loop.simps [simp del]

text \<open>The header line: a leading \<open>!\<close> and then a leading \<open>Name\<close> are dropped.\<close>

definition read_headers :: "string list \<Rightarrow> exn + string list" where
  "read_headers hs =
     (case hs of
        [] \<Rightarrow> Inl IndexError
      | h # t \<Rightarrow>
          (let hs1 = (if h = ''!'' then t else hs) in
           case hs1 of
             [] \<Rightarrow> Inl IndexError
           | h1 # t1 \<Rightarrow> Inr (if h1 = ''Name'' then t1 else hs1)))"

text \<open>\<^verbatim>\<open>for index, val in enumerate(headers): self.cols.update({val: index})\<close>.\<close>

fun read_cols :: "string list \<Rightarrow> nat \<Rightarrow> (string \<times> nat) list \<Rightarrow> (string \<times> nat) list" where
  "read_cols [] index c = c"
| "read_cols (val # hs) index c = read_cols hs (Suc index) (AList.update val index c)"

text \<open>
  The loop over the remaining lines, with its counter \<open>n\<close>: \<^verbatim>\<open>record[0]\<close> raises
  \<^verbatim>\<open>IndexError\<close> on a line without a token.
\<close>

fun read_rows :: "string list \<Rightarrow> nat \<Rightarrow> pedestal \<Rightarrow> exn + pedestal" where
  "read_rows [] n P = Inr P"
| "read_rows (line # ls) n P =
     (case py_split line of
        [] \<Rightarrow> Inl IndexError
      | r # cells \<Rightarrow>
          read_rows ls (Suc n)
            (P\<lparr>rows := AList.update r n (rows P),
               names := names P @ [r],
               entries := entries P @ [map PStr cells]\<rparr>))"

definition countcols :: "pedestal \<Rightarrow> nat" where
  "countcols P = length (cols P)"

definition countrows :: "pedestal \<Rightarrow> nat" where
  "countrows P = length (rows P)"

text \<open>
  \<^verbatim>\<open>Pedestal(filepath)\<close>: the three checks of the path, the file name, then the file.
  The result is the object and the line printed, or the exception raised.
\<close>

definition parse_map :: "string \<Rightarrow> string \<Rightarrow> string \<Rightarrow> exn + pedestal" where
  "parse_map nm pth text =
     (let ls = readlines text in
      case read_headers (py_split (case ls of [] \<Rightarrow> [] | l # _ \<Rightarrow> l)) of
        Inl e \<Rightarrow> Inl e
      | Inr hs \<Rightarrow>
          read_rows (tl ls) 0
            \<lparr>cols = read_cols hs 0 [], entries = [], headers = hs, name = nm, names = [],
             path = pth, rows = []\<rparr>)"

definition init :: "'w env \<Rightarrow> 'w \<Rightarrow> string \<Rightarrow> exn + (pedestal \<times> string list)" where
  "init env w filepath =
     (if length filepath < 5 then
        Inl (ValueError
          (''Invalid path length. Path must include .map extension. E.g., '/path/to/file.map''
             @ [CHR 0x27]))
      else if slice_from filepath (- 4) \<noteq> ''.map'' then
        Inl (ValueError
          (''The file must have a .map extension. E.g., '/path/to/file.map'' @ [CHR 0x27]))
      else if \<not> os_isfile env w filepath then
        Inl (ValueError ''This path does not point to an existing file.'')
      else
        case name_loop filepath (- 5) of
          Inl e \<Rightarrow> Inl e
        | Inr (nm, pth) \<Rightarrow>
            (case read_ascii env filepath w of
               Inl e \<Rightarrow> Inl e
             | Inr text \<Rightarrow>
                 (case parse_map nm pth text of
                    Inl e \<Rightarrow> Inl e
                  | Inr P \<Rightarrow>
                      Inr (P, [''Pedestal object successfully created. ''
                               @ str_nat (countrows P) @ '' rows were added.'']))))"

subsection \<open>Mutators\<close>

text \<open>
  A mutator returns the object it leaves behind together with the exception it raised,
  if any: a loop that raises half-way has already changed the rows before.

  \<^verbatim>\<open>setval\<close> is the assignment \<^verbatim>\<open>self.entries[row][col] = val\<close>.
\<close>

definition setval :: "pedestal \<Rightarrow> int \<Rightarrow> int \<Rightarrow> pyval \<Rightarrow> pedestal \<times> exn option" where
  "setval P row col val =
     (case py_idx (length (entries P)) row of
        None \<Rightarrow> (P, Some IndexError)
      | Some r \<Rightarrow>
          (case py_idx (length (entries P ! r)) col of
             None \<Rightarrow> (P, Some IndexError)
           | Some c \<Rightarrow> (P\<lparr>entries := (entries P)[r := (entries P ! r)[c := val]]\<rparr>, None)))"

text \<open>
  \<^verbatim>\<open>math.isnan(val)\<close>: a string is refused with \<^verbatim>\<open>TypeError\<close>, and an integer is first
  converted to a float, which overflows from \<open>2^1024 - 2^970\<close> on.
\<close>

definition py_isnan :: "pyval \<Rightarrow> exn + bool" where
  "py_isnan val =
     (case val of
        PStr s \<Rightarrow> Inl (TypeError ''must be real number, not str'')
      | PInt i \<Rightarrow> (if \<bar>i\<bar> < 2 ^ 1024 - 2 ^ 970 then Inr False else Inl OverflowError)
      | PFloat x \<Rightarrow> Inr (x = NaN))"

fun setcol_loop :: "pedestal \<Rightarrow> nat list \<Rightarrow> int \<Rightarrow> pyval \<Rightarrow> pedestal \<times> exn option" where
  "setcol_loop P [] col val = (P, None)"
| "setcol_loop P (row # rs) col val =
     (case setval P (int row) col val of
        (P', Some e) \<Rightarrow> (P', Some e)
      | (P', None) \<Rightarrow> setcol_loop P' rs col val)"

definition setcol :: "pedestal \<Rightarrow> int \<Rightarrow> pyval \<Rightarrow> pedestal \<times> exn option" where
  "setcol P col val =
     (case py_isnan val of
        Inl e \<Rightarrow> (P, Some e)
      | Inr True \<Rightarrow> (P, Some (TypeError ''Value must be a number.''))
      | Inr False \<Rightarrow> setcol_loop P [0..<countrows P] col val)"

fun setcols_loop :: "pedestal \<Rightarrow> string list \<Rightarrow> pyval \<Rightarrow> pedestal \<times> exn option" where
  "setcols_loop P [] val = (P, None)"
| "setcols_loop P (col # cs) val =
     (case dict_get (cols P) col of
        Inl e \<Rightarrow> (P, Some e)
      | Inr c \<Rightarrow>
          (case setcol P (int c) val of
             (P', Some e) \<Rightarrow> (P', Some e)
           | (P', None) \<Rightarrow> setcols_loop P' cs val))"

definition setcols :: "pedestal \<Rightarrow> string list \<Rightarrow> pyval \<Rightarrow> pedestal \<times> exn option" where
  "setcols P cs val =
     (case py_isnan val of
        Inl e \<Rightarrow> (P, Some e)
      | Inr True \<Rightarrow> (P, Some (TypeError ''Value must be a number.''))
      | Inr False \<Rightarrow> setcols_loop P cs val)"

subsection \<open>Import of the rates\<close>

text \<open>\<^verbatim>\<open>row[key]\<close> on a row of the reader, used as a string.\<close>

definition csv_field :: "csvrow \<Rightarrow> string \<Rightarrow> exn + string" where
  "csv_field row key =
     (case map_of row key of
        None \<Rightarrow> Inl (KeyError key)
      | Some None \<Rightarrow> Inl (TypeError ''NoneType'')
      | Some (Some s) \<Rightarrow> Inr s)"

text \<open>
  One pass of the \<^verbatim>\<open>for row in reader\<close> loop. Only the call of \<^verbatim>\<open>setval\<close> with its two
  dictionary lookups stands inside the \<^verbatim>\<open>try\<close>; a \<^verbatim>\<open>KeyError\<close> there is caught and
  ends the import, any other exception leaves the method.
\<close>

datatype step = Next | Caught | Raised exn

definition import_row :: "'w env \<Rightarrow> pedestal \<Rightarrow> csvrow \<Rightarrow> pedestal \<times> step" where
  "import_row env P row =
     (case csv_field row ''tile'' of
        Inl e \<Rightarrow> (P, Raised e)
      | Inr tile \<Rightarrow>
          (case detector_name tile of
             Inl e \<Rightarrow> (P, Raised e)
           | Inr detector \<Rightarrow>
               (case csv_field row ''Average Rate [GHz]'' of
                  Inl e \<Rightarrow> (P, Raised e)
                | Inr s \<Rightarrow>
                    (case csv_rate env s of
                       Inl e \<Rightarrow> (P, Raised e)
                     | Inr rate \<Rightarrow>
                         (case dict_get (rows P) detector of
                            Inl e \<Rightarrow> (P, Caught)
                          | Inr r \<Rightarrow>
                              (case dict_get (cols P) ''NormRate(Hz/uA)'' of
                                 Inl e \<Rightarrow> (P, Caught)
                               | Inr c \<Rightarrow>
                                   (case setval P (int r) (int c) (PInt rate) of
                                      (P', Some (KeyError k)) \<Rightarrow> (P', Caught)
                                    | (P', Some e) \<Rightarrow> (P', Raised e)
                                    | (P', None) \<Rightarrow> (P', Next))))))))"

text \<open>
  The loop over the rows that the reader yields; \<open>stop\<close> is the exception that the reader
  raises after the last of them, if any. The final line is printed when the loop ends
  with the file.
\<close>

fun import_rows ::
    "'w env \<Rightarrow> pedestal \<Rightarrow> csvrow list \<Rightarrow> exn option \<Rightarrow> pedestal \<times> string list \<times> exn option" where
  "import_rows env P [] stop =
     (case stop of
        None \<Rightarrow> (P, [''Import successful.''], None)
      | Some e \<Rightarrow> (P, [], Some e))"
| "import_rows env P (row # rs) stop =
     (case import_row env P row of
        (P', Next) \<Rightarrow> import_rows env P' rs stop
      | (P', Caught) \<Rightarrow>
          (P', [''There was an error constructing the detector name.'', ''Import failed.''], None)
      | (P', Raised e) \<Rightarrow> (P', [], Some e))"

definition import_tq_rates ::
    "'w env \<Rightarrow> 'w \<Rightarrow> pedestal \<Rightarrow> string \<Rightarrow> pedestal \<times> string list \<times> exn option" where
  "import_tq_rates env w P filepath =
     (case read_csv env filepath w of
        Inl e \<Rightarrow> (P, [], Some e)
      | Inr (rs, stop) \<Rightarrow> import_rows env P rs stop)"

subsection \<open>Writing and saving\<close>

text \<open>The text of a cell under \<^verbatim>\<open>f"{col:>14}"\<close>, before the alignment.\<close>

definition cell_str :: "'w env \<Rightarrow> pyval \<Rightarrow> string" where
  "cell_str env v = (case v of PStr s \<Rightarrow> s | PInt i \<Rightarrow> str_int i | PFloat x \<Rightarrow> float_str env x)"

definition header_line :: "pedestal \<Rightarrow> string" where
  "header_line P = ljust 12 ''! Name'' @ join '' '' (map (center 14) (headers P)) @ [CHR 0x0A]"

definition row_line :: "'w env \<Rightarrow> string \<Rightarrow> pyval list \<Rightarrow> string" where
  "row_line env nm cells =
     ljust 12 nm @ join '' '' (map (\<lambda>col. rjust 14 (cell_str env col)) cells) @ [CHR 0x0A]"

text \<open>
  The strings that the loop \<^verbatim>\<open>for m in range(self.countrows())\<close> of \<^verbatim>\<open>writemap\<close> writes,
  up to the first \<^verbatim>\<open>IndexError\<close> of \<^verbatim>\<open>self.names[m]\<close> or \<^verbatim>\<open>self.entries[m]\<close>.
\<close>

fun row_lines :: "'w env \<Rightarrow> pedestal \<Rightarrow> nat list \<Rightarrow> string list \<times> exn option" where
  "row_lines env P [] = ([], None)"
| "row_lines env P (m # ms) =
     (if m < length (names P) \<and> m < length (entries P) then
        (case row_lines env P ms of (ls, e) \<Rightarrow> (row_line env (names P ! m) (entries P ! m) # ls, e))
      else ([], Some IndexError))"

definition writemap :: "'w env \<Rightarrow> string \<Rightarrow> pedestal \<Rightarrow> 'w \<Rightarrow> exn option \<times> 'w" where
  "writemap env fullpath P w =
     (case row_lines env P [0..<countrows P] of
        (ls, e) \<Rightarrow>
          (case write_ascii env fullpath (header_line P # ls) w of
             (Some e', w') \<Rightarrow> (Some e', w')
           | (None, w') \<Rightarrow> (e, w')))"

text \<open>The three local names at the head of \<^verbatim>\<open>save\<close>.\<close>

definition pathname :: "pedestal \<Rightarrow> string" where
  "pathname P = path P @ name P"

definition currentfile :: "pedestal \<Rightarrow> string" where
  "currentfile P = pathname P @ ''.map''"

definition oldfile :: "pedestal \<Rightarrow> string" where
  "oldfile P = pathname P @ ''_old.map''"

text \<open>
  The \<^verbatim>\<open>try\<close> block of \<^verbatim>\<open>save\<close>: the world it leaves, the lines printed and the exception
  raised, if any. Where the block reaches \<^verbatim>\<open>if renamed and saved\<close> both flags are set,
  so that its \<^verbatim>\<open>else\<close> branch is never taken.
\<close>

definition save_try :: "'w env \<Rightarrow> pedestal \<Rightarrow> 'w \<Rightarrow> 'w \<times> string list \<times> exn option" where
  "save_try env P w =
     (if os_isfile env w (oldfile P) then
        (w, [], Some (RuntimeError
           (''Please rename or remove backup file '' @ oldfile P @ '' before saving.'')))
      else
        case os_rename env (currentfile P) (oldfile P) w of
          (Some e, w1) \<Rightarrow> (w1, [], Some e)
        | (None, w1) \<Rightarrow>
            if \<not> (os_isfile env w1 (oldfile P) \<and> \<not> os_isfile env w1 (currentfile P)) then
              (w1, [], Some (RuntimeError ''Save failed to rename old file.''))
            else
              (case writemap env (currentfile P) P w1 of
                 (Some e, w2) \<Rightarrow> (w2, [], Some e)
               | (None, w2) \<Rightarrow>
                   if os_isfile env w2 (currentfile P) then
                     (case os_remove env (oldfile P) w2 of
                        (Some e, w3) \<Rightarrow> (w3, [], Some e)
                      | (None, w3) \<Rightarrow>
                          if os_isfile env w3 (oldfile P) then
                            (w3, [], Some (RuntimeWarning
                               ''Save failed to remove the backup file, but a new save was created.''))
                          else (w3, [''Save successful.''], None))
                   else
                     (case os_rename env (oldfile P) (currentfile P) w2 of
                        (Some e, w3) \<Rightarrow> (w3, [], Some e)
                      | (None, w3) \<Rightarrow>
                          if os_isfile env w3 (currentfile P) then
                            (w3, [], Some (RuntimeError
                               ''Save failed to create new file. The original file was restored.''))
                          else
                            (w3, [], Some (RuntimeError
                               ''Save completely failed. Don't look now, but we might be in deep shit.'')))))"

text \<open>
  \<^verbatim>\<open>save\<close>: the handler \<^verbatim>\<open>except RuntimeError\<close> prints one line and lets the method
  return; every other exception, \<^verbatim>\<open>RuntimeWarning\<close> among them, leaves the method.
\<close>

definition save :: "'w env \<Rightarrow> pedestal \<Rightarrow> 'w \<Rightarrow> 'w \<times> string list \<times> exn option" where
  "save env P w =
     (case save_try env P w of
        (w', out, Some (RuntimeError msg)) \<Rightarrow> (w', out @ [''Runtime error occurred.''], None)
      | (w', out, r) \<Rightarrow> (w', out, r))"

subsection \<open>The hardware sum\<close>

text \<open>
  The operations on floats that \<^verbatim>\<open>hwsum\<close> uses and whose results are roundings:
  \<^verbatim>\<open>float(s)\<close> of a string, the product and the quotient of two floats, and the square
  root. What raises an exception in them (a negative argument of \<^verbatim>\<open>math.sqrt\<close>, a zero
  divisor) is decided below, outside the record.
\<close>

record float_ops =
  float_of_str :: "string \<Rightarrow> exn + pyfloat"
  float_mul :: "pyfloat \<Rightarrow> pyfloat \<Rightarrow> pyfloat"
  float_div :: "pyfloat \<Rightarrow> pyfloat \<Rightarrow> pyfloat"
  float_sqrt :: "pyfloat \<Rightarrow> pyfloat"

text \<open>
  \<^verbatim>\<open>float(i)\<close> of an integer, which Python also applies to an integer operand of a float
  product and to the argument of \<^verbatim>\<open>math.sqrt\<close>: the nearest double, ties to the even
  mantissa, and \<^verbatim>\<open>OverflowError\<close> from \<open>2^1024 - 2^970\<close> on, the first integer that
  rounds to \<open>2^1024\<close>. \<open>bit_length n\<close> is \<^verbatim>\<open>n.bit_length()\<close>.
\<close>

fun bit_length :: "nat \<Rightarrow> nat" where
  "bit_length n = (if n = 0 then 0 else Suc (bit_length (n div 2)))"

declare bit_length.simps [simp del]

definition nearest_float :: "int \<Rightarrow> pyfloat" where
  "nearest_float i =
     (let n = nat \<bar>i\<bar>; k = bit_length n - 53 in
      if k = 0 then Finite (i < 0) n 0
      else
        (let q = n div 2 ^ k; r = n mod 2 ^ k; h = 2 ^ (k - 1) in
         Finite (i < 0) (if r > h \<or> (r = h \<and> odd q) then q + 1 else q) (int k)))"

definition float_of_int :: "int \<Rightarrow> exn + pyfloat" where
  "float_of_int i =
     (if \<bar>i\<bar> < 2 ^ 1024 - 2 ^ 970 then Inr (nearest_float i) else Inl OverflowError)"

text \<open>
  \<^verbatim>\<open>int(x)\<close> of a float truncates towards zero; not-a-number and the infinities are
  refused.
\<close>

definition int_of_float :: "pyfloat \<Rightarrow> exn + int" where
  "int_of_float x =
     (case x of
        NaN \<Rightarrow> Inl (ValueError ''cannot convert float NaN to integer'')
      | PosInf \<Rightarrow> Inl OverflowError
      | NegInf \<Rightarrow> Inl OverflowError
      | Finite neg m e \<Rightarrow>
          (let a = (if 0 \<le> e then int m * 2 ^ nat e else int m div 2 ^ nat (- e))
           in Inr (if neg then - a else a)))"

text \<open>\<^verbatim>\<open>float(val)\<close> and \<^verbatim>\<open>int(val)\<close> of a cell of the table.\<close>

definition py_float :: "float_ops \<Rightarrow> pyval \<Rightarrow> exn + pyfloat" where
  "py_float ops val =
     (case val of PStr s \<Rightarrow> float_of_str ops s | PInt i \<Rightarrow> float_of_int i | PFloat x \<Rightarrow> Inr x)"

definition int_of_val :: "pyval \<Rightarrow> exn + int" where
  "int_of_val val =
     (case val of PStr s \<Rightarrow> py_int s | PInt i \<Rightarrow> Inr i | PFloat x \<Rightarrow> int_of_float x)"

text \<open>
  \<^verbatim>\<open>math.sqrt(x)\<close> raises \<^verbatim>\<open>ValueError\<close> below zero (\<open>-0.0\<close> is not below zero), and
  \<^verbatim>\<open>a / b\<close> raises \<^verbatim>\<open>ZeroDivisionError\<close> when \<open>b\<close> is a zero.
\<close>

definition float_negative :: "pyfloat \<Rightarrow> bool" where
  "float_negative x \<longleftrightarrow> (case x of NegInf \<Rightarrow> True | Finite neg m e \<Rightarrow> neg \<and> 0 < m | _ \<Rightarrow> False)"

definition float_zero :: "pyfloat \<Rightarrow> bool" where
  "float_zero x \<longleftrightarrow> (case x of Finite neg m e \<Rightarrow> m = 0 | _ \<Rightarrow> False)"

definition math_sqrt :: "float_ops \<Rightarrow> pyfloat \<Rightarrow> exn + pyfloat" where
  "math_sqrt ops x =
     (if float_negative x then Inl (ValueError ''math domain error'') else Inr (float_sqrt ops x))"

definition truediv :: "float_ops \<Rightarrow> pyfloat \<Rightarrow> pyfloat \<Rightarrow> exn + pyfloat" where
  "truediv ops a b =
     (if float_zero b then Inl ZeroDivisionError else Inr (float_div ops a b))"

text \<open>
  The constants of the module. \<^verbatim>\<open>milli = 1e-3\<close> is the double \<open>0x1.0624dd2f1a9fcp-10\<close>,
  and \<^verbatim>\<open>time = 2 * milli\<close> is that double with the exponent one higher (a product by
  two is exact), which is also the double of the literal \<^verbatim>\<open>0.002\<close>.
\<close>

definition milli :: pyfloat where
  "milli = Finite False 0x10624DD2F1A9FC (- 62)"

definition current :: int where
  "current = 100"

definition num_samples :: int where
  "num_samples = 15000"

definition time :: pyfloat where
  "time = Finite False 0x10624DD2F1A9FC (- 61)"

text \<open>
  \<^verbatim>\<open>self.entries[self.rows[row]][self.cols[col]]\<close>, evaluated in Python's order: the row
  index is looked up, the entry is fetched, the column index is looked up, and the cell
  is fetched.
\<close>

definition cell_at :: "pedestal \<Rightarrow> string \<Rightarrow> string \<Rightarrow> exn + pyval" where
  "cell_at P row col =
     (case dict_get (rows P) row of
        Inl e \<Rightarrow> Inl e
      | Inr r \<Rightarrow>
          (case py_index (entries P) (int r) of
             Inl e \<Rightarrow> Inl e
           | Inr entry \<Rightarrow>
               (case dict_get (cols P) col of
                  Inl e \<Rightarrow> Inl e
                | Inr c \<Rightarrow> py_index entry (int c))))"

definition voltperhz :: "float_ops \<Rightarrow> pedestal \<Rightarrow> string \<Rightarrow> exn + pyfloat" where
  "voltperhz ops P row =
     (case cell_at P row ''VoltPerHz'' of Inl e \<Rightarrow> Inl e | Inr cell \<Rightarrow> py_float ops cell)"

definition normrate :: "pedestal \<Rightarrow> string \<Rightarrow> exn + int" where
  "normrate P row =
     (case cell_at P row ''NormRate(Hz/uA)'' of Inl e \<Rightarrow> Inl e | Inr cell \<Rightarrow> int_of_val cell)"

text \<open>
  \<^verbatim>\<open>hwsum\<close>: \<^verbatim>\<open>mean = self.voltperhz(row) * self.normrate(row) * current\<close> and
  \<^verbatim>\<open>stddev = math.sqrt(num_samples) * self.voltperhz(row) / time\<close>. The integer
  operands are converted to floats where Python converts them, and \<^verbatim>\<open>voltperhz\<close> is
  called twice.
\<close>

definition hwsum :: "float_ops \<Rightarrow> pedestal \<Rightarrow> string \<Rightarrow> exn + (pyfloat \<times> pyfloat)" where
  "hwsum ops P row =
     (case voltperhz ops P row of
        Inl e \<Rightarrow> Inl e
      | Inr v \<Rightarrow>
     (case normrate P row of
        Inl e \<Rightarrow> Inl e
      | Inr n \<Rightarrow>
     (case float_of_int n of
        Inl e \<Rightarrow> Inl e
      | Inr fn \<Rightarrow>
     (case float_of_int current of
        Inl e \<Rightarrow> Inl e
      | Inr fc \<Rightarrow>
          let mean = float_mul ops (float_mul ops v fn) fc in
     (case float_of_int num_samples of
        Inl e \<Rightarrow> Inl e
      | Inr fs \<Rightarrow>
     (case math_sqrt ops fs of
        Inl e \<Rightarrow> Inl e
      | Inr s \<Rightarrow>
     (case voltperhz ops P row of
        Inl e \<Rightarrow> Inl e
      | Inr v2 \<Rightarrow>
     (case truediv ops (float_mul ops s v2) time of
        Inl e \<Rightarrow> Inl e
      | Inr stddev \<Rightarrow> Inr (mean, stddev)))))))))"

text \<open>
  The formulas as the specification gives them, over the same float operations:
  \<open>mean = v * n * 100\<close> and \<open>stddev = sqrt(15000) * v / 0.002\<close>.
\<close>

definition spec_mean :: "float_ops \<Rightarrow> pyfloat \<Rightarrow> int \<Rightarrow> pyfloat" where
  "spec_mean ops v n = float_mul ops (float_mul ops v (nearest_float n)) (Finite False 100 0)"

definition spec_stddev :: "float_ops \<Rightarrow> pyfloat \<Rightarrow> pyfloat" where
  "spec_stddev ops v =
     float_div ops (float_mul ops (float_sqrt ops (Finite False 15000 0)) v)
       (Finite False 0x10624DD2F1A9FC (- 61))"

subsection \<open>Files in memory\<close>

text \<open>
  An environment whose world is a finite map from paths to file contents, for running
  the code: every path is writable, there are no directories, and the ASCII codec
  refuses a character from 128 on. A \<^verbatim>\<open>write\<close> that the codec refuses leaves the
  strings written before it in the file. The three parameters stand for the parts of
  Python that are not modelled: the text of a float, the rate expression and the CSV
  reader.
\<close>

type_synonym files = "string \<Rightarrow> string option"

definition is_ascii :: "string \<Rightarrow> bool" where
  "is_ascii s \<longleftrightarrow> (\<forall>c \<in> set s. of_char c < (128::nat))"

definition mem_rename :: "string \<Rightarrow> string \<Rightarrow> files \<Rightarrow> exn option \<times> files" where
  "mem_rename src dst fs =
     (case fs src of
        None \<Rightarrow> (Some (OSError ''No such file or directory''), fs)
      | Some text \<Rightarrow> (None, (fs(src := None))(dst := Some text)))"

definition mem_remove :: "string \<Rightarrow> files \<Rightarrow> exn option \<times> files" where
  "mem_remove p fs =
     (case fs p of
        None \<Rightarrow> (Some (OSError ''No such file or directory''), fs)
      | Some text \<Rightarrow> (None, fs(p := None)))"

definition mem_write :: "string \<Rightarrow> string list \<Rightarrow> files \<Rightarrow> exn option \<times> files" where
  "mem_write p ls fs =
     (let ok = takeWhile is_ascii ls in
      (if length ok = length ls then None else Some UnicodeError, fs(p := Some (concat ok))))"

definition mem_read :: "string \<Rightarrow> files \<Rightarrow> exn + string" where
  "mem_read p fs =
     (case fs p of
        None \<Rightarrow> Inl (OSError ''No such file or directory'')
      | Some text \<Rightarrow> (if is_ascii text then Inr text else Inl UnicodeError))"

definition mem_env ::
    "(pyfloat \<Rightarrow> string) \<Rightarrow> (string \<Rightarrow> exn + int)
       \<Rightarrow> (string \<Rightarrow> exn + (csvrow list \<times> exn option)) \<Rightarrow> files env" where
  "mem_env fstr rate csv =
     \<lparr>os_isfile = (\<lambda>fs p. fs p \<noteq> None),
      os_rename = mem_rename,
      os_remove = mem_remove,
      write_ascii = mem_write,
      read_ascii = mem_read,
      read_csv = (\<lambda>p fs. case fs p of
                    None \<Rightarrow> Inl (OSError ''No such file or directory'')
                  | Some text \<Rightarrow> csv text),
      float_str = fstr,
      csv_rate = rate\<rparr>"

section \<open>The invariant of the table\<close>

text \<open>
  The invariant as the specification states it: as many entries as rows in the row
  mapping, as many cells in every entry as there are columns, and no row name twice.
\<close>

definition table_inv :: "pedestal \<Rightarrow> bool" where
  "table_inv P \<longleftrightarrow>
     length (entries P) = countrows P
     \<and> (\<forall>e \<in> set (entries P). length e = countcols P)
     \<and> distinct (names P)"

text \<open>
  The calls of the mutators, to speak of every sequence of them; \<open>apply_call\<close> is the
  object after the call, whether the call returned or raised.
\<close>

datatype call =
    SetVal int int pyval
  | SetCol int pyval
  | SetCols "string list" pyval
  | ImportTqRates string

fun apply_call :: "'w env \<Rightarrow> 'w \<Rightarrow> pedestal \<Rightarrow> call \<Rightarrow> pedestal" where
  "apply_call env w P (SetVal row col val) = fst (setval P row col val)"
| "apply_call env w P (SetCol col val) = fst (setcol P col val)"
| "apply_call env w P (SetCols cs val) = fst (setcols P cs val)"
| "apply_call env w P (ImportTqRates filepath) = fst (import_tq_rates env w P filepath)"

text \<open>
  What no mutator changes: the two mappings, the names, the headers, the file name, and
  the number of cells of every entry.
\<close>

definition same_shape :: "pedestal \<Rightarrow> pedestal \<Rightarrow> bool" where
  "same_shape P Q \<longleftrightarrow>
     cols Q = cols P \<and> rows Q = rows P \<and> names Q = names P \<and> headers Q = headers P
     \<and> name Q = name P \<and> path Q = path P
     \<and> map length (entries Q) = map length (entries P)"

text \<open>
  What the constructor establishes: the mappings are the ones its two loops build from
  the headers and from the names, and every name has its entry.
\<close>

definition consistent :: "pedestal \<Rightarrow> bool" where
  "consistent P \<longleftrightarrow>
     cols P = read_cols (headers P) 0 [] \<and> rows P = read_cols (names P) 0 []
     \<and> length (entries P) = length (names P)"

section \<open>Tables that are written and read back\<close>

text \<open>
  A token is what the claims call a non-empty string containing no whitespace; an
  ASCII token is one that the codec of the map file accepts.
\<close>

definition token :: "string \<Rightarrow> bool" where
  "token s \<longleftrightarrow> s \<noteq> [] \<and> (\<forall>c \<in> set s. \<not> is_space c)"

definition ascii_token :: "string \<Rightarrow> bool" where
  "ascii_token s \<longleftrightarrow> token s \<and> is_ascii s"

definition cell_token :: "pyval \<Rightarrow> bool" where
  "cell_token v \<longleftrightarrow> (case v of PStr s \<Rightarrow> token s \<and> is_ascii s | _ \<Rightarrow> False)"

text \<open>
  \<^verbatim>\<open>writemap\<close> puts no separator between the name field and the first cell: they are
  kept apart by the padding of one of them, which is there when the name is shorter
  than 12 characters or the first cell shorter than 14.
\<close>

definition row_fits :: "string \<Rightarrow> pyval list \<Rightarrow> bool" where
  "row_fits nm cells \<longleftrightarrow>
     length nm < 12
     \<or> (case cells of [] \<Rightarrow> True | PStr s # _ \<Rightarrow> length s < 14 | _ \<Rightarrow> False)"

text \<open>The text of the file after \<^verbatim>\<open>writemap\<close>: all the strings written, in order.\<close>

definition map_text :: "'w env \<Rightarrow> pedestal \<Rightarrow> string" where
  "map_text env P = concat (header_line P # fst (row_lines env P [0..<countrows P]))"

text \<open>
  Two notions for the proofs: a field format that only adds whitespace around its
  argument, and text that is ASCII and free of line ends.
\<close>

definition padded :: "(string \<Rightarrow> string) \<Rightarrow> bool" where
  "padded f \<longleftrightarrow> (\<forall>s. \<exists>a b. f s = a @ s @ b \<and> list_all is_space a \<and> list_all is_space b)"

definition plain :: "string \<Rightarrow> bool" where
  "plain s \<longleftrightarrow> is_ascii s \<and> CHR 0x0A \<notin> set s \<and> CHR 0x0D \<notin> set s"

section \<open>Example data\<close>

text \<open>
  Concrete environments, tables and files on which the theorems below are run. The
  float text, the rate expression and the CSV reader of \<open>demo_env\<close> are stand-ins:
  the rate of a field is its integer value, and every CSV file is empty.
\<close>

definition demo_env :: "files env" where
  "demo_env = mem_env (\<lambda>x. ''nan'') (\<lambda>s. py_int s) (\<lambda>text. Inr ([], None))"

definition demo_table :: pedestal where
  "demo_table = \<lparr>cols = [(''A'', 0)], entries = [[PStr ''1'']], headers = [''A''],
     name = ''a'', names = [''x''], path = ''d/'', rows = [(''x'', 0)]\<rparr>"

text \<open>A directory that holds the map file, alone or next to a backup left behind.\<close>

definition one_file :: files where
  "one_file = (\<lambda>p. if p = ''d/a.map'' then Some ''old text'' else None)"

definition demo_files :: files where
  "demo_files = (\<lambda>p. if p = ''d/a.map'' then Some ''old text''
                      else if p = ''d/a_old.map'' then Some ''stale backup'' else None)"

text \<open>
  The map file as \<^verbatim>\<open>writemap\<close> writes it for the example table, in a directory and in
  the working directory.
\<close>

definition map_file :: files where
  "map_file = (\<lambda>p. if p = ''d/a.map'' \<or> p = ''a.map''
      then Some (header_line demo_table @ row_line demo_env ''x'' [PStr ''1'']) else None)"

text \<open>An environment in which \<^verbatim>\<open>os.remove\<close> returns without removing anything.\<close>

definition stuck_env :: "files env" where
  "stuck_env = demo_env\<lparr>os_remove := (\<lambda>p fs. (None, fs))\<rparr>"

text \<open>
  A table with the rate column and one detector, and a CSV file of three rows: the
  first and the third name that detector, the second names \<open>TQ16_R5L\<close>.
\<close>

definition rate_table :: pedestal where
  "rate_table = \<lparr>cols = [(''NormRate(Hz/uA)'', 0)], entries = [[PStr ''5'']],
     headers = [''NormRate(Hz/uA)''], name = ''a'', names = [''TQ01_R1''], path = ''d/'',
     rows = [(''TQ01_R1'', 0)]\<rparr>"

definition csv_ok :: csvrow where
  "csv_ok = [(''tile'', Some ''150110''), (''Average Rate [GHz]'', Some ''7'')]"

definition csv_unmatched :: csvrow where
  "csv_unmatched = [(''tile'', Some ''110851''), (''Average Rate [GHz]'', Some ''8'')]"

definition csv_env :: "files env" where
  "csv_env = demo_env\<lparr>read_csv := (\<lambda>p fs. Inr ([csv_ok, csv_unmatched, csv_ok], None))\<rparr>"

text \<open>A map file in which the row name \<open>x\<close> stands twice, and the object built from it.\<close>

definition dup_file :: files where
  "dup_file = (\<lambda>p. if p = ''d/a.map''
      then Some (''! Name A'' @ [CHR 0x0A] @ ''x 1'' @ [CHR 0x0A] @ ''x 2'' @ [CHR 0x0A])
      else None)"

definition dup_table :: pedestal where
  "dup_table = \<lparr>cols = [(''A'', 0)], entries = [[PStr ''1''], [PStr ''2'']], headers = [''A''],
     name = ''a'', names = [''x'', ''x''], path = ''d/'', rows = [(''x'', 1)]\<rparr>"

section \<open>Properties of the decoding\<close>

lemma length_str_nat_pos: "0 < length (str_nat n)"
  by (induction n rule: str_nat.induct) (subst str_nat.simps, simp)

lemma format_02_zero_padded: "format_02 i = zero_padded_2 i"
proof (cases "i < 0")
  case True
  have "2 - length (str_int i) = 0"
    using True length_str_nat_pos [of "nat (- i)"] by (simp add: str_int_def)
  then show ?thesis
    using True by (simp add: format_02_def zero_padded_2_def str_int_def)
next
  case False
  then show ?thesis
    by (simp add: format_02_def zero_padded_2_def str_int_def)
qed

lemma is_digit_not_space: "is_digit c \<Longrightarrow> \<not> is_int_space c"
  by (auto simp: is_digit_def is_int_space_def int_whitespace_def)

lemma is_digit_not_sign:
  "is_digit c \<Longrightarrow> c \<noteq> CHR ''-'' \<and> c \<noteq> CHR ''+'' \<and> c \<noteq> CHR ''_''"
  by (auto simp: is_digit_def)

lemma py_int_two_digits:
  assumes "is_digit a" and "is_digit b"
  shows "py_int [a, b] = Inr (10 * digit_val a + digit_val b)"
proof -
  have "int_strip [a, b] = [a, b]"
    using assms by (simp add: int_strip_def is_digit_not_space)
  then show ?thesis
    using assms is_digit_not_sign [of a] is_digit_not_sign [of b]
    by (simp add: py_int_def int_of_digits_def digits_val_def int_max_str_digits_def)
qed

section \<open>Claims about the tile code\<close>

text \<open>
  Claim C2 (as amended). For every six-character tile code \<open>FFNNRP\<close> with \<open>FF\<close> one of
  \<open>15\<close> and \<open>11\<close> and \<open>NN\<close> two decimal digits, the decoding of \<^verbatim>\<open>import_tq_rates\<close>
  returns \<open>TQ\<close>, the zero-padded segment (\<open>2 * NN\<close> for \<open>11\<close>, \<open>2 * NN - 1\<close> otherwise),
  \<open>_R\<close>, the fifth character and the suffix \<open>L\<close>, \<open>C\<close>, \<open>R\<close> or nothing for a sixth
  character \<open>1\<close>, \<open>2\<close>, \<open>3\<close> or anything else. The copies of the decoding in
  tq\_weights.py return the same name built from the lower-case pieces \<open>tq\<close>, \<open>_r\<close>
  and \<open>l\<close>, \<open>c\<close>, \<open>r\<close>.
\<close>

theorem tile_decoding:
  assumes "FF = ''15'' \<or> FF = ''11''" and "is_digit n1" and "is_digit n2"
  shows "detector_name (FF @ [n1, n2, R, P])
           = Inr (spec_detector FF (10 * digit_val n1 + digit_val n2) R P)
       \<and> tq_weights_detector (FF @ [n1, n2, R, P])
           = Inr (spec_detector_lower FF (10 * digit_val n1 + digit_val n2) R P)"
proof -
  from assms(1) obtain f1 f2 where FF: "FF = [f1, f2]" by auto
  have num: "py_int (take 2 (drop 2 (FF @ [n1, n2, R, P])))
               = Inr (10 * digit_val n1 + digit_val n2)"
    using py_int_two_digits [OF assms(2,3)] by (simp add: FF)
  have fl: "take 2 (FF @ [n1, n2, R, P]) = FF" by (simp add: FF)
  have ring: "char_at (FF @ [n1, n2, R, P]) 4 = Inr R" by (simp add: FF char_at_def)
  have pos: "char_at (FF @ [n1, n2, R, P]) 5 = Inr P" by (simp add: FF char_at_def)
  have upper: "detector_name (FF @ [n1, n2, R, P])
           = Inr (spec_detector FF (10 * digit_val n1 + digit_val n2) R P)"
    unfolding detector_name_def num fl ring pos
    by (simp add: spec_detector_def spec_suffix_def segment_of_def format_02_zero_padded Let_def)
  have lower: "tq_weights_detector (FF @ [n1, n2, R, P])
           = Inr (spec_detector_lower FF (10 * digit_val n1 + digit_val n2) R P)"
    unfolding tq_weights_detector_def num fl ring pos
    by (simp add: spec_detector_lower_def spec_suffix_lower_def segment_of_def
        format_02_zero_padded Let_def)
  show ?thesis using upper lower by simp
qed

text \<open>
  Witness for C2: the code \<open>110851\<close> (eighth transition segment, ring 5, left) gives
  \<open>TQ16_R5L\<close> in mapfile.py and \<open>tq16_r5l\<close> in tq\_weights.py.
\<close>

theorem tile_decoding_witness:
  "(''11'' = ''15'' \<or> ''11'' = ''11'') \<and> is_digit (CHR ''0'') \<and> is_digit (CHR ''8'')
   \<and> detector_name ''110851'' = Inr ''TQ16_R5L''
   \<and> tq_weights_detector ''110851'' = Inr ''tq16_r5l''"
proof -
  have d0: "is_digit (CHR ''0'')" and d8: "is_digit (CHR ''8'')"
    by (simp_all add: is_digit_def)
  have ff: "''11'' = ''15'' \<or> ''11'' = ''11''" by simp
  have val: "10 * digit_val (CHR ''0'') + digit_val (CHR ''8'') = 8"
    by (simp add: digit_val_def)
  have s1: "spec_detector ''11'' 8 (CHR ''5'') (CHR ''1'') = ''TQ16_R5L''"
    by (simp add: spec_detector_def spec_suffix_def zero_padded_2_def str_int_def digit_char_def)
  have s2: "spec_detector_lower ''11'' 8 (CHR ''5'') (CHR ''1'') = ''tq16_r5l''"
    by (simp add: spec_detector_lower_def spec_suffix_lower_def zero_padded_2_def str_int_def
        digit_char_def)
  show ?thesis
    using tile_decoding [OF ff d0 d8, of "CHR ''5''" "CHR ''1''"] d0 d8
    by (simp add: val s1 s2)
qed

text \<open>
  Counterexample to C2 as stated: for the code \<open>110851\<close> the decoding in tq\_weights.py
  does not produce the upper-case name \<open>TQ16_R5L\<close> that the stated formula gives.
\<close>

theorem tq_weights_lower_case_counterexample:
  "tq_weights_detector ''110851'' \<noteq> Inr (spec_detector ''11'' 8 (CHR ''5'') (CHR ''1''))"
  by (simp add: tq_weights_detector_def py_int_def int_strip_def is_int_space_def int_whitespace_def
      int_of_digits_def int_max_str_digits_def is_digit_def digits_val_def digit_val_def char_at_def segment_of_def
      format_02_def digit_char_def spec_detector_def)

text \<open>
  Claim C4 (as amended). The tile code \<open>151220\<close> decodes to \<open>TQ23_R2\<close>: front flush,
  so the segment is \<open>2 * 12 - 1 = 23\<close>, ring 2, no position suffix. The name \<open>TQ21_R2\<close>
  is the decoding of \<open>151120\<close>, the example in the docstring of \<^verbatim>\<open>import_tq_rates\<close>.
\<close>

theorem decode_151220:
  "detector_name ''151220'' = Inr ''TQ23_R2'' \<and> detector_name ''151120'' = Inr ''TQ21_R2''"
  by (simp add: detector_name_def py_int_def int_strip_def is_int_space_def int_whitespace_def
      int_of_digits_def int_max_str_digits_def is_digit_def digits_val_def digit_val_def char_at_def segment_of_def
      format_02_def digit_char_def)

text \<open>Counterexample to C4 as stated: \<open>151220\<close> does not decode to \<open>TQ21_R2\<close>.\<close>

theorem decode_151220_counterexample:
  "detector_name ''151220'' \<noteq> Inr ''TQ21_R2''"
  by (simp add: detector_name_def py_int_def int_strip_def is_int_space_def int_whitespace_def
      int_of_digits_def int_max_str_digits_def is_digit_def digits_val_def digit_val_def char_at_def segment_of_def
      format_02_def digit_char_def)

text \<open>
  Float operations for the examples: a string is read as an integer literal, the product
  of two finite floats is their exact product, and the quotient and the square root are
  stand-ins.
\<close>

definition demo_ops :: float_ops where
  "demo_ops =
     \<lparr>float_of_str = (\<lambda>s. case py_int s of Inl e \<Rightarrow> Inl e | Inr i \<Rightarrow> float_of_int i),
      float_mul = (\<lambda>a b. case a of
                     Finite s1 m1 e1 \<Rightarrow>
                       (case b of Finite s2 m2 e2 \<Rightarrow> Finite (s1 \<noteq> s2) (m1 * m2) (e1 + e2)
                        | _ \<Rightarrow> NaN)
                   | _ \<Rightarrow> NaN),
      float_div = (\<lambda>a b. NaN),
      float_sqrt = (\<lambda>a. NaN)\<rparr>"

text \<open>
  A table with the two columns that \<^verbatim>\<open>hwsum\<close> reads, and the same table with a rate
  written with an exponent.
\<close>

definition volt_table :: pedestal where
  "volt_table = \<lparr>cols = [(''VoltPerHz'', 0), (''NormRate(Hz/uA)'', 1)],
     entries = [[PStr ''2'', PStr ''3'']], headers = [''VoltPerHz'', ''NormRate(Hz/uA)''],
     name = ''a'', names = [''x''], path = ''d/'', rows = [(''x'', 0)]\<rparr>"

definition rate_text_table :: pedestal where
  "rate_text_table = volt_table\<lparr>entries := [[PStr ''2'', PStr ''1.5e9'']]\<rparr>"

section \<open>Evaluation of the example data\<close>

lemma stuck_env_sel:
  "os_isfile stuck_env fs p \<longleftrightarrow> fs p \<noteq> None"
  "os_rename stuck_env = mem_rename"
  "os_remove stuck_env p fs = (None, fs)"
  "write_ascii stuck_env = mem_write"
  by (simp_all add: stuck_env_def demo_env_def mem_env_def)

lemma demo_env_isfile: "os_isfile demo_env fs p \<longleftrightarrow> fs p \<noteq> None"
  by (simp add: demo_env_def mem_env_def)

lemma demo_paths: "currentfile demo_table = ''d/a.map''" "oldfile demo_table = ''d/a_old.map''"
  by (simp_all add: currentfile_def oldfile_def pathname_def demo_table_def)

lemma demo_lines:
  "row_lines env demo_table [0..<countrows demo_table] = ([row_line env ''x'' [PStr ''1'']], None)"
  by (simp add: countrows_def demo_table_def)

lemma ascii_header: "is_ascii (header_line demo_table)"
  by (simp add: is_ascii_def header_line_def demo_table_def ljust_def center_def)

lemma ascii_row: "is_ascii (row_line env ''x'' [PStr ''1''])"
  by (simp add: is_ascii_def row_line_def ljust_def rjust_def cell_str_def)

lemma stuck_write:
  "writemap stuck_env p demo_table fs
     = (None, fs(p := Some (header_line demo_table @ row_line stuck_env ''x'' [PStr ''1''])))"
  by (simp add: writemap_def demo_lines stuck_env_sel mem_write_def ascii_header ascii_row)

lemma decode_150110: "detector_name ''150110'' = Inr ''TQ01_R1''"
  by (simp add: detector_name_def py_int_def int_strip_def is_int_space_def int_whitespace_def
      int_of_digits_def int_max_str_digits_def is_digit_def digits_val_def digit_val_def char_at_def segment_of_def
      format_02_def digit_char_def)

lemma decode_110851: "detector_name ''110851'' = Inr ''TQ16_R5L''"
  by (simp add: detector_name_def py_int_def int_strip_def is_int_space_def int_whitespace_def
      int_of_digits_def int_max_str_digits_def is_digit_def digits_val_def digit_val_def char_at_def segment_of_def
      format_02_def digit_char_def)

lemma csv_env_sel:
  "read_csv csv_env p fs = Inr ([csv_ok, csv_unmatched, csv_ok], None)"
  "csv_rate csv_env = py_int"
  by (simp_all add: csv_env_def demo_env_def mem_env_def)

lemma py_int_7: "py_int ''7'' = Inr 7"
  by (simp add: py_int_def int_strip_def is_int_space_def int_whitespace_def int_of_digits_def is_digit_def
      int_max_str_digits_def digits_val_def digit_val_def)

lemma py_int_8: "py_int ''8'' = Inr 8"
  by (simp add: py_int_def int_strip_def is_int_space_def int_whitespace_def int_of_digits_def is_digit_def
      int_max_str_digits_def digits_val_def digit_val_def)

lemma import_first_row:
  "import_row csv_env rate_table csv_ok = (rate_table\<lparr>entries := [[PInt 7]]\<rparr>, Next)"
  by (simp add: import_row_def csv_ok_def csv_field_def decode_150110 csv_env_sel py_int_7
      dict_get_def rate_table_def setval_def py_idx_def)

section \<open>The import loop\<close>

text \<open>
  A prefix of the rows that the loop passes without failure can be cut off: the loop
  continues on the rest from the table that the prefix leaves.
\<close>

lemma import_rows_append:
  "import_rows env P pre None = (P1, [''Import successful.''], None)
   \<Longrightarrow> import_rows env P (pre @ rest) stop = import_rows env P1 rest stop"
proof (induction pre arbitrary: P)
  case Nil
  then show ?case by simp
next
  case (Cons r pre)
  obtain P' s where step: "import_row env P r = (P', s)" by (cases "import_row env P r")
  show ?case
  proof (cases s)
    case Next
    with Cons.prems step have "import_rows env P' pre None = (P1, [''Import successful.''], None)"
      by simp
    from Cons.IH [OF this] step Next show ?thesis by simp
  next
    case Caught
    with Cons.prems step show ?thesis by simp
  next
    case (Raised e)
    with Cons.prems step show ?thesis by simp
  qed
qed

lemma import_row_unmatched:
  assumes "csv_field r ''tile'' = Inr tile" and "detector_name tile = Inr detector"
    and "map_of (rows P) detector = None \<or> map_of (cols P) ''NormRate(Hz/uA)'' = None"
  shows "import_row env P r =
           (case csv_field r ''Average Rate [GHz]'' of
              Inl e \<Rightarrow> (P, Raised e)
            | Inr s \<Rightarrow> (case csv_rate env s of Inl e \<Rightarrow> (P, Raised e) | Inr rate \<Rightarrow> (P, Caught)))"
  using assms
  by (auto simp: import_row_def dict_get_def split: sum.splits option.splits)

section \<open>Claims about the mutators and the import\<close>

text \<open>
  Claim C7. For every table and every column index, \<^verbatim>\<open>setcol\<close> with a not-a-number
  value raises \<^verbatim>\<open>TypeError\<close> and returns the table as it was: the check stands before
  the loop over the rows. The same holds for \<^verbatim>\<open>setcols\<close> and every list of column names.
\<close>

theorem setcol_rejects_nan:
  "setcol P col (PFloat NaN) = (P, Some (TypeError ''Value must be a number.''))
   \<and> setcols P cs (PFloat NaN) = (P, Some (TypeError ''Value must be a number.''))"
  by (simp add: setcol_def setcols_def py_isnan_def)

text \<open>
  Claim C6. Let the reader yield the rows \<open>pre @ r # post\<close>, whether they end with the
  file or with an exception of the reader (\<open>stop\<close>), where the loop passes all of \<open>pre\<close>
  and leaves the table \<open>P1\<close>, and where the detector name decoded from \<open>r\<close> is not a row
  of the table (or the rate column is absent). Then \<^verbatim>\<open>import_tq_rates\<close> ends at \<open>r\<close>
  with the table \<open>P1\<close>: nothing is written for \<open>r\<close> or for \<open>post\<close>, and what \<open>pre\<close> wrote
  stays. When the rate field of \<open>r\<close> is a number the error is caught, reported by the two
  printed lines, and the method returns; otherwise the exception of the rate field
  leaves the method, with the same table.
\<close>

theorem import_stops_at_first_unmatched:
  assumes "read_csv env filepath w = Inr (pre @ r # post, stop)"
    and "import_rows env P pre None = (P1, [''Import successful.''], None)"
    and "csv_field r ''tile'' = Inr tile" and "detector_name tile = Inr detector"
    and "map_of (rows P1) detector = None \<or> map_of (cols P1) ''NormRate(Hz/uA)'' = None"
  shows "import_tq_rates env w P filepath =
           (case csv_field r ''Average Rate [GHz]'' of
              Inl e \<Rightarrow> (P1, [], Some e)
            | Inr s \<Rightarrow>
                (case csv_rate env s of
                   Inl e \<Rightarrow> (P1, [], Some e)
                 | Inr rate \<Rightarrow>
                     (P1, [''There was an error constructing the detector name.'',
                           ''Import failed.''], None)))"
proof -
  have run: "import_tq_rates env w P filepath = import_rows env P1 (r # post) stop"
    using assms(1) import_rows_append [OF assms(2)] by (simp add: import_tq_rates_def)
  show ?thesis
    unfolding run using import_row_unmatched [OF assms(3,4,5), of env]
    by (simp split: sum.splits)
qed

text \<open>
  Witness for C6: of the three rows the first sets the rate of \<open>TQ01_R1\<close> to 7, the
  second names \<open>TQ16_R5L\<close>, which the table lacks, and the third is never reached. The
  cell that held \<open>5\<close> holds 7 afterwards.
\<close>

theorem import_stops_at_first_unmatched_witness:
  "import_tq_rates csv_env Map.empty rate_table ''rates.csv'' =
     (rate_table\<lparr>entries := [[PInt 7]]\<rparr>,
      [''There was an error constructing the detector name.'', ''Import failed.''], None)
   \<and> entries rate_table = [[PStr ''5'']]"
proof -
  let ?P1 = "rate_table\<lparr>entries := [[PInt 7]]\<rparr>"
  have h1: "read_csv csv_env ''rates.csv'' Map.empty
              = Inr ([csv_ok] @ csv_unmatched # [csv_ok], None)"
    by (simp add: csv_env_sel)
  have h2: "import_rows csv_env rate_table [csv_ok] None
              = (?P1, [''Import successful.''], None)"
    by (simp add: import_first_row)
  have h3: "csv_field csv_unmatched ''tile'' = Inr ''110851''"
    by (simp add: csv_field_def csv_unmatched_def)
  have h5: "map_of (rows ?P1) ''TQ16_R5L'' = None
            \<or> map_of (cols ?P1) ''NormRate(Hz/uA)'' = None"
    by (simp add: rate_table_def)
  have r: "csv_field csv_unmatched ''Average Rate [GHz]'' = Inr ''8''"
    by (simp add: csv_field_def csv_unmatched_def)
  have e: "entries rate_table = [[PStr ''5'']]"
    by (simp add: rate_table_def)
  show ?thesis
    using import_stops_at_first_unmatched [OF h1 h2 h3 decode_110851 h5] e
    by (simp add: r csv_env_sel py_int_8)
qed

section \<open>Claims about saving\<close>

text \<open>
  Claim C3. Whenever the backup file \<open>oldfile\<close> (path, name and \<open>_old.map\<close>) exists, the \<^verbatim>\<open>try\<close> block
  of \<^verbatim>\<open>save\<close> raises \<^verbatim>\<open>RuntimeError\<close> at its first statement, and \<^verbatim>\<open>save\<close> prints the
  line of its handler and returns: the world is the one it was called in, so that no
  file was renamed, written or removed, in any environment.
\<close>

theorem save_refuses_existing_backup:
  assumes "os_isfile env w (oldfile P)"
  shows "save_try env P w =
           (w, [], Some (RuntimeError (''Please rename or remove backup file ''
                  @ oldfile P @ '' before saving.'')))
       \<and> save env P w = (w, [''Runtime error occurred.''], None)"
proof -
  have t: "save_try env P w =
           (w, [], Some (RuntimeError (''Please rename or remove backup file ''
                  @ oldfile P @ '' before saving.'')))"
    using assms by (simp add: save_try_def Let_def)
  show ?thesis unfolding save_def t by simp
qed

text \<open>
  Witness for C3: with \<open>d/a.map\<close> and a stale \<open>d/a_old.map\<close> on disk, \<^verbatim>\<open>save\<close> leaves both
  files with their contents.
\<close>

theorem save_refuses_existing_backup_witness:
  "os_isfile demo_env demo_files (oldfile demo_table)
   \<and> save demo_env demo_table demo_files = (demo_files, [''Runtime error occurred.''], None)
   \<and> demo_files ''d/a.map'' = Some ''old text''
   \<and> demo_files ''d/a_old.map'' = Some ''stale backup''"
proof -
  have h: "os_isfile demo_env demo_files (oldfile demo_table)"
    by (simp add: demo_env_isfile demo_paths demo_files_def)
  show ?thesis
    using h save_refuses_existing_backup [OF h]
    by (simp add: demo_files_def)
qed

text \<open>
  Claim C5 (as amended). When the backup was made, the new file was written and found
  to exist, and the backup still exists after \<^verbatim>\<open>os.remove\<close> returned, \<^verbatim>\<open>save\<close> raises
  \<^verbatim>\<open>RuntimeWarning\<close>. The handler of \<^verbatim>\<open>save\<close> catches \<^verbatim>\<open>RuntimeError\<close> only, so the
  exception reaches the caller and \<open>Save successful.\<close> is not printed. The world is the
  one that \<^verbatim>\<open>os.remove\<close> left, new file and backup both in place.
\<close>

theorem save_raises_when_backup_stays:
  assumes "\<not> os_isfile env w (oldfile P)"
    and "os_rename env (currentfile P) (oldfile P) w = (None, w1)"
    and "os_isfile env w1 (oldfile P)"
    and "\<not> os_isfile env w1 (currentfile P)"
    and "writemap env (currentfile P) P w1 = (None, w2)"
    and "os_isfile env w2 (currentfile P)"
    and "os_remove env (oldfile P) w2 = (None, w3)"
    and "os_isfile env w3 (oldfile P)"
  shows "save env P w =
           (w3, [], Some (RuntimeWarning
              ''Save failed to remove the backup file, but a new save was created.''))"
proof -
  have "save_try env P w =
           (w3, [], Some (RuntimeWarning
              ''Save failed to remove the backup file, but a new save was created.''))"
    using assms by (simp add: save_try_def Let_def)
  then show ?thesis by (simp add: save_def)
qed

text \<open>
  Witness for C5: in the environment whose \<^verbatim>\<open>os.remove\<close> removes nothing, saving the
  example table over \<open>d/a.map\<close> ends with the warning raised.
\<close>

theorem save_raises_when_backup_stays_witness:
  "\<not> os_isfile stuck_env one_file ''d/a_old.map''
   \<and> save stuck_env demo_table one_file =
       (((one_file(''d/a.map'' := None))(''d/a_old.map'' := Some ''old text''))
          (''d/a.map'' := Some (header_line demo_table @ row_line stuck_env ''x'' [PStr ''1''])),
        [], Some (RuntimeWarning
              ''Save failed to remove the backup file, but a new save was created.''))"
proof -
  let ?w1 = "(one_file(''d/a.map'' := None))(''d/a_old.map'' := Some ''old text'')"
  let ?w2 = "?w1(''d/a.map'' := Some (header_line demo_table @ row_line stuck_env ''x'' [PStr ''1'']))"
  have h1: "\<not> os_isfile stuck_env one_file (oldfile demo_table)"
    by (simp add: demo_paths stuck_env_sel one_file_def)
  have h2: "os_rename stuck_env (currentfile demo_table)
              (oldfile demo_table) one_file = (None, ?w1)"
    by (simp add: demo_paths stuck_env_sel mem_rename_def one_file_def)
  have h3: "os_isfile stuck_env ?w1 (oldfile demo_table)"
    by (simp add: demo_paths stuck_env_sel)
  have h4: "\<not> os_isfile stuck_env ?w1 (currentfile demo_table)"
    by (simp add: demo_paths stuck_env_sel)
  have h5: "writemap stuck_env (currentfile demo_table) demo_table ?w1
              = (None, ?w2)"
    by (simp add: demo_paths stuck_write)
  have h6: "os_isfile stuck_env ?w2 (currentfile demo_table)"
    by (simp add: demo_paths stuck_env_sel)
  have h7: "os_remove stuck_env (oldfile demo_table) ?w2 = (None, ?w2)"
    by (simp add: stuck_env_sel)
  have h8: "os_isfile stuck_env ?w2 (oldfile demo_table)"
    by (simp add: demo_paths stuck_env_sel)
  show ?thesis
    using save_raises_when_backup_stays [OF h1 h2 h3 h4 h5 h6 h7 h8] h1
    by (simp add: demo_paths)
qed

text \<open>
  Counterexample to C5 as stated: in that run \<^verbatim>\<open>save\<close> does not return normally. No
  backup exists beforehand, the new file is in place and the backup is still there
  afterwards, and the result carries the exception \<^verbatim>\<open>RuntimeWarning\<close> with no line
  printed.
\<close>

theorem save_returns_normally_counterexample:
  "\<not> os_isfile stuck_env one_file ''d/a_old.map''
   \<and> snd (save stuck_env demo_table one_file)
       = ([], Some (RuntimeWarning
            ''Save failed to remove the backup file, but a new save was created.''))
   \<and> fst (save stuck_env demo_table one_file) ''d/a_old.map'' = Some ''old text''
   \<and> fst (save stuck_env demo_table one_file) ''d/a.map''
       = Some (header_line demo_table @ row_line stuck_env ''x'' [PStr ''1''])"
  by (simp add: save_def save_try_def Let_def demo_paths stuck_env_sel mem_rename_def one_file_def
      stuck_write)

section \<open>The file name\<close>

text \<open>
  The loop of the constructor scans the path backwards from the character before the
  extension. One pass at the index \<open>k\<close>, counted from the front:
\<close>

lemma py_index_from_end:
  "k < length xs \<Longrightarrow> py_index xs (int k - int (length xs)) = Inr (xs ! k)"
  by (simp add: py_index_def py_idx_def)

lemma name_loop_unfold:
  assumes "k + 5 \<le> length fp"
  shows "name_loop fp (int k - int (length fp)) =
           (if fp ! k = CHR ''/'' then Inr (drop (Suc k) (take (length fp - 4) fp), take (Suc k) fp)
            else if k = 0 then Inr (take (length fp - 4) fp, [])
            else name_loop fp (int (k - 1) - int (length fp)))"
proof -
  have idx: "py_index fp (int k - int (length fp)) = Inr (fp ! k)"
    using assms by (intro py_index_from_end) simp
  have b1: "int (length fp) + (int k - int (length fp) + 1) = int (Suc k)"
    by simp
  have b3: "slice_bound (length fp) (int (Suc k)) = Suc k"
    using assms unfolding slice_bound_def by simp
  have b2: "slice_bound (length fp) (- 4) = length fp - 4"
    using assms by (simp add: slice_bound_def)
  have a: "\<bar>int k - int (length fp)\<bar> = int (length fp) \<longleftrightarrow> k = 0"
    using assms by auto
  have g: "\<not> \<bar>int k - int (length fp)\<bar> > int (length fp)"
    using assms by auto
  have r: "k \<noteq> 0 \<Longrightarrow> int k - int (length fp) - 1 = int (k - 1) - int (length fp)"
    by auto
  show ?thesis
    apply (subst name_loop.simps)
    apply (simp only: idx py_slice_def slice_to_def b1 b2 b3 a g sum.case if_False)
    apply (cases "k = 0")
     apply (simp_all add: r)
    done
qed

lemma name_loop_scan:
  assumes "k + 5 \<le> length fp"
    and "\<forall>j. k < j \<and> j + 4 < length fp \<longrightarrow> fp ! j \<noteq> CHR ''/''"
  shows "\<exists>nm pth. name_loop fp (int k - int (length fp)) = Inr (nm, pth)
           \<and> pth @ nm = take (length fp - 4) fp
           \<and> CHR ''/'' \<notin> set nm
           \<and> (pth = [] \<or> last pth = CHR ''/'')"
  using assms
proof (induction k)
  case 0
  show ?case
  proof (cases "fp ! 0 = CHR ''/''")
    case True
    have nm: "CHR ''/'' \<notin> set (drop (Suc 0) (take (length fp - 4) fp))"
      using 0 by (auto simp: in_set_conv_nth)
    have app: "take (Suc 0) fp @ drop (Suc 0) (take (length fp - 4) fp) = take (length fp - 4) fp"
    proof -
      have "Suc 0 \<le> length fp - 4" using 0 by arith
      then have "take (Suc 0) fp = take (Suc 0) (take (length fp - 4) fp)"
        by (simp add: min_absorb1)
      then show ?thesis by (metis append_take_drop_id)
    qed
    have l: "last (take (Suc 0) fp) = CHR ''/''"
      using True 0 by (cases fp) auto
    show ?thesis
      unfolding name_loop_unfold [OF "0.prems"(1)] using True nm app l by simp
  next
    case False
    have "CHR ''/'' \<notin> set (take (length fp - 4) fp)"
    proof
      assume "CHR ''/'' \<in> set (take (length fp - 4) fp)"
      then obtain j where j: "j < length fp - 4" "fp ! j = CHR ''/''"
        by (auto simp: in_set_conv_nth)
      then show False using False 0 by (cases "j = 0") auto
    qed
    then show ?thesis
      unfolding name_loop_unfold [OF "0.prems"(1)] using False by simp
  qed
next
  case (Suc k)
  show ?case
  proof (cases "fp ! Suc k = CHR ''/''")
    case True
    have nm: "CHR ''/'' \<notin> set (drop (Suc (Suc k)) (take (length fp - 4) fp))"
      using Suc.prems by (auto simp: in_set_conv_nth)
    have app: "take (Suc (Suc k)) fp @ drop (Suc (Suc k)) (take (length fp - 4) fp)
                 = take (length fp - 4) fp"
    proof -
      have "Suc (Suc k) \<le> length fp - 4" using Suc.prems by arith
      then have "take (Suc (Suc k)) fp = take (Suc (Suc k)) (take (length fp - 4) fp)"
        by (simp add: min_absorb1)
      then show ?thesis by (metis append_take_drop_id)
    qed
    have l: "last (take (Suc (Suc k)) fp) = CHR ''/''"
      using True Suc.prems by (simp add: take_Suc_conv_app_nth)
    show ?thesis
      unfolding name_loop_unfold [OF Suc.prems(1)] using True nm app l by simp
  next
    case False
    have "k + 5 \<le> length fp" using Suc.prems by simp
    moreover have "\<forall>j. k < j \<and> j + 4 < length fp \<longrightarrow> fp ! j \<noteq> CHR ''/''"
    proof (intro allI impI)
      fix j assume "k < j \<and> j + 4 < length fp"
      then show "fp ! j \<noteq> CHR ''/''"
        using Suc.prems(2) False by (cases "j = Suc k") auto
    qed
    ultimately have "\<exists>nm pth. name_loop fp (int k - int (length fp)) = Inr (nm, pth)
           \<and> pth @ nm = take (length fp - 4) fp
           \<and> CHR ''/'' \<notin> set nm
           \<and> (pth = [] \<or> last pth = CHR ''/'')"
      by (rule Suc.IH)
    then show ?thesis
      unfolding name_loop_unfold [OF Suc.prems(1)] using False by simp
  qed
qed

lemma name_loop_start:
  assumes "5 \<le> length fp"
  shows "\<exists>nm pth. name_loop fp (- 5) = Inr (nm, pth)
           \<and> pth @ nm = take (length fp - 4) fp
           \<and> CHR ''/'' \<notin> set nm
           \<and> (pth = [] \<or> last pth = CHR ''/'')"
proof -
  have i: "int (length fp - 5) - int (length fp) = - 5" using assms by simp
  have "\<forall>j. length fp - 5 < j \<and> j + 4 < length fp \<longrightarrow> fp ! j \<noteq> CHR ''/''"
    by auto
  moreover have "(length fp - 5) + 5 \<le> length fp" using assms by simp
  ultimately show ?thesis
    using name_loop_scan [of "length fp - 5" fp] unfolding i by blast
qed

lemma read_rows_name_path:
  "read_rows ls n P0 = Inr P \<Longrightarrow> name P = name P0 \<and> path P = path P0"
proof (induction ls arbitrary: n P0)
  case Nil
  then show ?case by simp
next
  case (Cons l ls)
  then show ?case by (cases "py_split l") auto
qed

lemma parse_map_name_path:
  "parse_map nm pth text = Inr P \<Longrightarrow> name P = nm \<and> path P = pth"
  by (auto simp: parse_map_def Let_def split: sum.splits dest!: read_rows_name_path)

lemma init_name_path:
  assumes "init env w filepath = Inr (P, out)"
  shows "name_loop filepath (- 5) = Inr (name P, path P)
         \<and> 5 \<le> length filepath \<and> drop (length filepath - 4) filepath = ''.map''"
proof -
  from assms have len: "5 \<le> length filepath"
    by (simp add: init_def split: if_splits)
  from assms have "slice_from filepath (- 4) = ''.map''"
    by (simp add: init_def split: if_splits)
  then have ext: "drop (length filepath - 4) filepath = ''.map''"
    using len by (simp add: slice_from_def slice_bound_def nat_diff_distrib')
  from assms len ext obtain nm pth body where
    nl: "name_loop filepath (- 5) = Inr (nm, pth)" and pm: "parse_map nm pth body = Inr P"
    by (auto simp: init_def split: if_splits sum.splits)
  from parse_map_name_path [OF pm] nl len ext show ?thesis by simp
qed

section \<open>Evaluation of the constructor\<close>

lemma replicate_numeral: "replicate (numeral k) x = x # replicate (pred_numeral k) x"
  by (simp add: numeral_eq_Suc)

lemma demo_text:
  "header_line demo_table @ row_line env ''x'' [PStr ''1'']
     = ''! Name            A       '' @ [CHR 0x0A] @ ''x                        1'' @ [CHR 0x0A]"
  by (simp add: header_line_def row_line_def demo_table_def ljust_def rjust_def center_def
      cell_str_def replicate_numeral)

lemma demo_rows: "countrows demo_table = 1"
  by (simp add: countrows_def demo_table_def)

lemma demo_env_read: "read_ascii demo_env = mem_read"
  by (simp add: demo_env_def mem_env_def)

lemma name_loop_demo: "name_loop ''d/a.map'' (- 5) = Inr (''a'', ''d/'')" 
  by (simp add: name_loop.simps py_index_def py_idx_def py_slice_def slice_to_def slice_bound_def)

lemma name_loop_flat: "name_loop ''a.map'' (- 5) = Inr (''a'', [])"
  by (simp add: name_loop.simps py_index_def py_idx_def py_slice_def slice_to_def slice_bound_def)

lemma parse_demo:
  "parse_map nm pth (header_line demo_table @ row_line env ''x'' [PStr ''1''])
     = Inr (demo_table\<lparr>name := nm, path := pth\<rparr>)"
  unfolding demo_text
  by (simp add: parse_map_def readlines_def py_split_def is_space_def whitespace_def
      read_headers_def demo_table_def)

lemma is_ascii_append: "is_ascii (a @ b) \<longleftrightarrow> is_ascii a \<and> is_ascii b"
  by (auto simp: is_ascii_def)

lemma parse_demo_dir:
  "parse_map ''a'' ''d/'' (header_line demo_table @ row_line env ''x'' [PStr ''1''])
     = Inr demo_table"
  unfolding parse_demo by (simp add: demo_table_def)

lemma parse_demo_flat:
  "parse_map ''a'' [] (header_line demo_table @ row_line env ''x'' [PStr ''1''])
     = Inr (demo_table\<lparr>path := []\<rparr>)"
  unfolding parse_demo by (simp add: demo_table_def)

lemma demo_rows_flat: "countrows (demo_table\<lparr>path := []\<rparr>) = 1"
  by (simp add: countrows_def demo_table_def)

lemma str_nat_1: "str_nat (Suc 0) = ''1''"
  by (simp add: digit_char_def)

lemma init_demo:
  "init demo_env map_file ''d/a.map''
     = Inr (demo_table, [''Pedestal object successfully created. 1 rows were added.''])"
  by (simp add: init_def slice_from_def slice_bound_def demo_env_isfile map_file_def
      name_loop_demo demo_env_read mem_read_def ascii_header ascii_row is_ascii_append
      parse_demo_dir demo_rows str_nat_1 del: str_nat.simps)

lemma init_flat:
  "init demo_env map_file ''a.map''
     = Inr (demo_table\<lparr>path := []\<rparr>,
            [''Pedestal object successfully created. 1 rows were added.''])"
  by (simp add: init_def slice_from_def slice_bound_def demo_env_isfile map_file_def
      name_loop_flat demo_env_read mem_read_def ascii_header ascii_row is_ascii_append
      parse_demo_flat demo_rows_flat str_nat_1 del: str_nat.simps)

section \<open>Shape of the table under the mutators\<close>

lemma same_shape_refl: "same_shape P P"
  by (simp add: same_shape_def)

lemma same_shape_trans: "same_shape P Q \<Longrightarrow> same_shape Q R \<Longrightarrow> same_shape P R"
  by (simp add: same_shape_def)

lemma py_idx_Some: "py_idx n i = Some k \<Longrightarrow> k < n"
  by (auto simp: py_idx_def split: if_splits)

lemma map_length_update:
  "k < length es \<Longrightarrow> map length (es[k := (es ! k)[c := v]]) = map length es"
  by (simp add: map_update list_update_same_conv)

lemma setval_shape: "same_shape P (fst (setval P row col val))"
  by (auto simp: setval_def same_shape_def map_length_update dest: py_idx_Some
      split: option.splits)

lemma setcol_loop_shape: "same_shape P (fst (setcol_loop P rs col val))"
proof (induction rs arbitrary: P)
  case Nil
  show ?case by (simp add: same_shape_refl)
next
  case (Cons r rs)
  obtain P' e where s: "setval P (int r) col val = (P', e)" by (cases "setval P (int r) col val")
  have sh: "same_shape P P'" using setval_shape [of P "int r" col val] s by simp
  show ?case
  proof (cases e)
    case None
    with s sh Cons.IH [of P'] show ?thesis by (auto intro: same_shape_trans)
  next
    case (Some x)
    with s sh show ?thesis by simp
  qed
qed

lemma setcol_shape: "same_shape P (fst (setcol P col val))"
  by (auto simp: setcol_def same_shape_refl setcol_loop_shape split: sum.splits bool.splits)

lemma setcols_loop_shape: "same_shape P (fst (setcols_loop P cs val))"
proof (induction cs arbitrary: P)
  case Nil
  show ?case by (simp add: same_shape_refl)
next
  case (Cons c cs)
  show ?case
  proof (cases "dict_get (cols P) c")
    case (Inl e)
    then show ?thesis by (simp add: same_shape_refl)
  next
    case (Inr k)
    obtain P' e where s: "setcol P (int k) val = (P', e)" by (cases "setcol P (int k) val")
    have sh: "same_shape P P'" using setcol_shape [of P "int k" val] s by simp
    show ?thesis
    proof (cases e)
      case None
      with Inr s sh Cons.IH [of P'] show ?thesis by (auto intro: same_shape_trans)
    next
      case (Some x)
      with Inr s sh show ?thesis by simp
    qed
  qed
qed

lemma setcols_shape: "same_shape P (fst (setcols P cs val))"
  by (auto simp: setcols_def same_shape_refl setcols_loop_shape split: sum.splits bool.splits)

lemma import_row_shape: "same_shape P (fst (import_row env P r))"
proof -
  have "same_shape P (fst (setval P a b v))" for a b v by (rule setval_shape)
  then have "\<And>a b v P' e. setval P a b v = (P', e) \<Longrightarrow> same_shape P P'"
    by (metis fst_conv)
  then show ?thesis
    by (auto simp: import_row_def same_shape_refl split: sum.splits prod.splits option.splits exn.splits)
qed

lemma import_rows_shape: "same_shape P (fst (import_rows env P rs stop))"
proof (induction rs arbitrary: P)
  case Nil
  show ?case by (cases stop) (simp_all add: same_shape_refl)
next
  case (Cons r rs)
  obtain P' s where st: "import_row env P r = (P', s)" by (cases "import_row env P r")
  have sh: "same_shape P P'" using import_row_shape [of P env r] st by simp
  show ?case
    using st sh Cons.IH [of P'] by (cases s) (auto intro: same_shape_trans)
qed

lemma import_shape: "same_shape P (fst (import_tq_rates env w P filepath))"
  by (auto simp: import_tq_rates_def same_shape_refl import_rows_shape split: sum.splits)

lemma apply_call_shape: "same_shape P (apply_call env w P c)"
  by (cases c) (simp_all add: setval_shape setcol_shape setcols_shape import_shape)

lemma same_shape_inv: "same_shape P Q \<Longrightarrow> table_inv P \<Longrightarrow> table_inv Q"
proof -
  assume sh: "same_shape P Q" and inv: "table_inv P"
  have ml: "map length (entries Q) = map length (entries P)" using sh by (simp add: same_shape_def)
  then have len: "length (entries Q) = length (entries P)" by (metis length_map)
  have "set (map length (entries Q)) = set (map length (entries P))" using ml by simp
  then have "length ` set (entries Q) = length ` set (entries P)" by simp
  then have "\<forall>e \<in> set (entries Q). length e = countcols P"
    using inv by (auto simp: table_inv_def)
  then show "table_inv Q"
    using sh inv len by (simp add: table_inv_def same_shape_def countrows_def countcols_def)
qed

lemma foldl_calls_shape: "same_shape P (foldl (apply_call env w) P cs)"
proof (induction cs arbitrary: P)
  case Nil
  show ?case by (simp add: same_shape_refl)
next
  case (Cons c cs)
  show ?case
    using apply_call_shape [of P env w c] Cons.IH [of "apply_call env w P c"]
    by (auto intro: same_shape_trans)
qed


section \<open>The table that the constructor builds\<close>

lemma read_rows_result:
  "read_rows ls n P =
     (if \<forall>l \<in> set ls. py_split l \<noteq> [] then
        Inr (P\<lparr>rows := read_cols (map (\<lambda>l. hd (py_split l)) ls) n (rows P),
               names := names P @ map (\<lambda>l. hd (py_split l)) ls,
               entries := entries P @ map (\<lambda>l. map PStr (tl (py_split l))) ls\<rparr>)
      else Inl IndexError)"
proof (induction ls arbitrary: n P)
  case Nil
  show ?case by simp
next
  case (Cons l ls)
  show ?case
  proof (cases "py_split l")
    case Nil
    then show ?thesis by simp
  next
    case (Cons r cells)
    then show ?thesis by (simp add: Cons.IH)
  qed
qed

lemma read_cols_keys:
  "fst ` set (read_cols hs n c) = set hs \<union> fst ` set c"
  by (induction hs arbitrary: n c) (auto simp: dom_update)

lemma read_cols_distinct:
  "distinct (map fst c) \<Longrightarrow> distinct (map fst (read_cols hs n c))"
  by (induction hs arbitrary: n c) (auto simp: distinct_update)

lemma length_read_cols: "length (read_cols hs 0 []) = card (set hs)"
proof -
  have "distinct (map fst (read_cols hs 0 []))" by (rule read_cols_distinct) simp
  then have "length (map fst (read_cols hs 0 [])) = card (set (map fst (read_cols hs 0 [])))"
    by (rule distinct_card [symmetric])
  then show ?thesis by (simp add: read_cols_keys)
qed

lemma parse_map_consistent:
  assumes "parse_map nm pth body = Inr P"
  shows "consistent P"
proof -
  from assms obtain hs where
    P: "read_rows (tl (readlines body)) 0
          \<lparr>cols = read_cols hs 0 [], entries = [], headers = hs, name = nm, names = [],
           path = pth, rows = []\<rparr> = Inr P"
    by (auto simp: parse_map_def Let_def split: sum.splits)
  then show ?thesis
    unfolding read_rows_result by (auto simp: consistent_def split: if_splits)
qed

lemma init_consistent:
  assumes "init env w filepath = Inr (P, out)"
  shows "consistent P"
proof -
  from assms obtain nm pth body where "parse_map nm pth body = Inr P"
    by (auto simp: init_def split: if_splits sum.splits)
  then show ?thesis by (rule parse_map_consistent)
qed

lemma consistent_counts:
  assumes "consistent P"
  shows "countrows P = card (set (names P))" and "countcols P = card (set (headers P))"
  using assms by (simp_all add: consistent_def countrows_def countcols_def length_read_cols)

text \<open>
  Every table that the constructor and a sequence of mutator calls produce is
  consistent, and targets the file it was constructed from.
\<close>

lemma same_shape_consistent: "same_shape P Q \<Longrightarrow> consistent P \<Longrightarrow> consistent Q"
proof -
  assume sh: "same_shape P Q" and c: "consistent P"
  have "map length (entries Q) = map length (entries P)" using sh by (simp add: same_shape_def)
  then have "length (entries Q) = length (entries P)" by (metis length_map)
  then show "consistent Q"
    using sh c by (simp add: consistent_def same_shape_def)
qed

lemma calls_consistent:
  assumes "init env w filepath = Inr (P0, out)"
  shows "consistent (foldl (apply_call env w') P0 calls)"
  using foldl_calls_shape [of P0 env w' calls] init_consistent [OF assms]
  by (rule same_shape_consistent)

lemma calls_keep_file:
  "currentfile (foldl (apply_call env w) P calls) = currentfile P
   \<and> oldfile (foldl (apply_call env w) P calls) = oldfile P"
  using foldl_calls_shape [of P env w calls]
  by (simp add: same_shape_def currentfile_def oldfile_def pathname_def)

lemma parse_map_lines:
  assumes "parse_map nm pth body = Inr P"
  shows "names P = map (\<lambda>l. hd (py_split l)) (tl (readlines body))
       \<and> entries P = map (\<lambda>l. map PStr (tl (py_split l))) (tl (readlines body))"
proof -
  from assms obtain hs where
    P: "read_rows (tl (readlines body)) 0
          \<lparr>cols = read_cols hs 0 [], entries = [], headers = hs, name = nm, names = [],
           path = pth, rows = []\<rparr> = Inr P"
    by (auto simp: parse_map_def Let_def split: sum.splits)
  then show ?thesis
    unfolding read_rows_result by (auto split: if_splits)
qed

lemma parse_dup:
  "parse_map ''a'' ''d/'' (''! Name A'' @ [CHR 0x0A] @ ''x 1'' @ [CHR 0x0A] @ ''x 2'' @ [CHR 0x0A])
     = Inr dup_table"
  by (simp add: parse_map_def readlines_def py_split_def is_space_def whitespace_def
      read_headers_def dup_table_def)

lemma init_dup:
  "init demo_env dup_file ''d/a.map''
     = Inr (dup_table, [''Pedestal object successfully created. 1 rows were added.''])"
proof -
  have a: "is_ascii (''! Name A'' @ [CHR 0x0A] @ ''x 1'' @ [CHR 0x0A] @ ''x 2'' @ [CHR 0x0A])"
    by (simp add: is_ascii_def)
  have r: "countrows dup_table = Suc 0" by (simp add: countrows_def dup_table_def)
  show ?thesis
    using a
    by (simp add: init_def slice_from_def slice_bound_def demo_env_isfile dup_file_def
      name_loop_demo demo_env_read mem_read_def parse_dup r str_nat_1 del: append.simps str_nat.simps)
qed

lemma isnan_small: "py_isnan (PInt 4) = Inr False" "py_isnan (PInt 5) = Inr False"
  by (simp_all add: py_isnan_def)

lemma demo_calls:
  "foldl (apply_call demo_env map_file) demo_table
     [SetVal 0 0 (PInt 3), SetCol 0 (PInt 4), SetCols [''A''] (PInt 5), ImportTqRates ''rates.csv'']
   = demo_table\<lparr>entries := [[PInt 5]]\<rparr>"
  by (simp add: setval_def setcol_def setcols_def isnan_small py_idx_def demo_table_def
      countrows_def dict_get_def import_tq_rates_def demo_env_def mem_env_def map_file_def)

section \<open>Claim about the invariant\<close>

text \<open>
  Claim C8 (as amended). The constructor checks neither the row names nor the number of
  tokens of a line: its object has one entry and one name per data line (lemma
  \<open>parse_map_lines\<close>), one row in the row mapping per distinct row name and one
  column per distinct header (lemma \<open>consistent_counts\<close>). When the file accepted by
  the constructor has pairwise distinct row names and in every data line as many values
  as there are columns, the invariant holds after construction and after every
  sequence of calls of \<^verbatim>\<open>setval\<close>, \<^verbatim>\<open>setcol\<close>, \<^verbatim>\<open>setcols\<close> and \<^verbatim>\<open>import_tq_rates\<close>,
  whether they return or raise.
\<close>

theorem invariant_after_construction_and_calls:
  assumes "init env w filepath = Inr (P0, out)"
    and "distinct (names P0)"
    and "\<forall>e \<in> set (entries P0). length e = countcols P0"
  shows "table_inv (foldl (apply_call env w') P0 calls)"
proof -
  have c: "consistent P0" using assms(1) by (rule init_consistent)
  have "countrows P0 = length (names P0)"
    using consistent_counts(1) [OF c] assms(2) by (simp add: distinct_card)
  then have "table_inv P0"
    using c assms(2,3) by (simp add: table_inv_def consistent_def)
  with foldl_calls_shape [of P0 env w' calls] show ?thesis
    by (rule same_shape_inv)
qed

text \<open>
  Witness for C8: the example table is built from its file, and the invariant holds
  after four calls, which leave the value 5 in its cell.
\<close>

theorem invariant_after_construction_and_calls_witness:
  "init demo_env map_file ''d/a.map''
     = Inr (demo_table, [''Pedestal object successfully created. 1 rows were added.''])
   \<and> distinct (names demo_table)
   \<and> map length (entries demo_table) = [countcols demo_table]
   \<and> foldl (apply_call demo_env map_file) demo_table
        [SetVal 0 0 (PInt 3), SetCol 0 (PInt 4), SetCols [''A''] (PInt 5),
         ImportTqRates ''rates.csv'']
       = demo_table\<lparr>entries := [[PInt 5]]\<rparr>
   \<and> length (entries (demo_table\<lparr>entries := [[PInt 5]]\<rparr>))
       = countrows (demo_table\<lparr>entries := [[PInt 5]]\<rparr>)
   \<and> map length (entries (demo_table\<lparr>entries := [[PInt 5]]\<rparr>))
       = [countcols (demo_table\<lparr>entries := [[PInt 5]]\<rparr>)]
   \<and> distinct (names (demo_table\<lparr>entries := [[PInt 5]]\<rparr>))"
proof -
  have h2: "distinct (names demo_table)" by (simp add: demo_table_def)
  have h3: "\<forall>e \<in> set (entries demo_table). length e = countcols demo_table"
    by (simp add: demo_table_def countcols_def)
  have "table_inv (demo_table\<lparr>entries := [[PInt 5]]\<rparr>)"
    using invariant_after_construction_and_calls [OF init_demo h2 h3, of map_file
        "[SetVal 0 0 (PInt 3), SetCol 0 (PInt 4), SetCols [''A''] (PInt 5),
          ImportTqRates ''rates.csv'']"]
    unfolding demo_calls .
  moreover have "map length (entries demo_table) = [countcols demo_table]"
    by (simp add: demo_table_def countcols_def)
  ultimately show ?thesis
    using init_demo h2 demo_calls by (simp add: table_inv_def)
qed

text \<open>
  Counterexample to C8 as stated: the constructor accepts the file with the row name
  \<open>x\<close> on two lines. The object has two entries and one row in the row mapping, and
  its names are not distinct.
\<close>

theorem invariant_counterexample:
  "init demo_env dup_file ''d/a.map''
     = Inr (dup_table, [''Pedestal object successfully created. 1 rows were added.''])
   \<and> length (entries dup_table) = 2 \<and> countrows dup_table = 1 \<and> \<not> distinct (names dup_table)
   \<and> \<not> table_inv dup_table"
  using init_dup by (simp add: table_inv_def dup_table_def countrows_def)

section \<open>Splitting the written lines\<close>

text \<open>
  \<^verbatim>\<open>split\<close> skips whitespace, collects a token up to the next whitespace, and so gives
  back the tokens of a line of padded fields.
\<close>

lemma split_skip_space:
  "list_all is_space ws \<Longrightarrow> split_from [] (ws @ rest) = split_from [] rest"
  by (induction ws) auto

lemma split_collect:
  "\<forall>c \<in> set t. \<not> is_space c \<Longrightarrow> split_from tok (t @ rest) = split_from (tok @ t) rest"
  by (induction t arbitrary: tok) auto

lemma split_token_then:
  assumes "token t" and "X \<noteq> []" and "is_space (hd X)"
  shows "split_from [] (t @ X) = t # split_from [] X"
proof -
  from assms(2) obtain s X' where X: "X = s # X'" by (cases X) auto
  with assms(3) have s: "is_space s" by simp
  have "split_from [] (t @ X) = split_from t X"
    using split_collect [of t "[]" X] assms(1) by (simp add: token_def)
  also have "\<dots> = t # split_from [] X'"
    using assms(1) s by (simp add: X token_def)
  also have "split_from [] X' = split_from [] X"
    using s by (simp add: X)
  finally show ?thesis .
qed

lemma split_only_space: "list_all is_space ws \<Longrightarrow> split_from [] ws = []"
  using split_skip_space [of ws "[]"] by simp

lemma space_is_space: "is_space (CHR '' '')" "is_space (CHR 0x0A)"
  by (simp_all add: is_space_def whitespace_def)

lemma split_join:
  assumes "padded f" and "list_all is_space tail" and "tail \<noteq> []"
  shows "list_all token cs \<Longrightarrow> split_from [] (join '' '' (map f cs) @ tail) = cs"
proof (induction cs rule: induct_list012)
  case 1
  show ?case using assms(2) by (simp add: split_only_space)
next
  case (2 c)
  from assms(1) obtain a b where f: "f c = a @ c @ b" "list_all is_space a" "list_all is_space b"
    unfolding padded_def by blast
  have hd: "is_space (hd (b @ tail))"
    using f(3) assms(2,3) by (cases b; cases tail) auto
  have "split_from [] (f c @ tail) = split_from [] (c @ (b @ tail))"
    using split_skip_space [OF f(2)] by (simp add: f(1))
  also have "\<dots> = c # split_from [] (b @ tail)"
    using 2 assms(3) hd by (intro split_token_then) auto
  also have "split_from [] (b @ tail) = []"
    using f(3) assms(2) by (intro split_only_space) simp
  finally show ?case by simp
next
  case (3 c d ds)
  from assms(1) obtain a b where f: "f c = a @ c @ b" "list_all is_space a" "list_all is_space b"
    unfolding padded_def by blast
  let ?R = "join '' '' (map f (d # ds)) @ tail"
  have sp: "list_all is_space (b @ '' '')" using f(3) by (simp add: space_is_space)
  have hd: "is_space (hd ((b @ '' '') @ ?R))"
    using f(3) by (cases b) (auto simp: space_is_space)
  have "split_from [] (join '' '' (map f (c # d # ds)) @ tail)
          = split_from [] (c @ ((b @ '' '') @ ?R))"
    using split_skip_space [OF f(2)] by (simp add: f(1))
  also have "\<dots> = c # split_from [] ((b @ '' '') @ ?R)"
    using 3(3) hd by (intro split_token_then) auto
  also have "split_from [] ((b @ '' '') @ ?R) = split_from [] ?R"
    using sp by (rule split_skip_space)
  also have "\<dots> = d # ds" using 3 by simp
  finally show ?case .
qed

lemma padded_rjust: "padded (rjust w)"
  unfolding padded_def
proof
  fix s :: string
  let ?a = "replicate (w - length s) (CHR '' '')"
  have "rjust w s = ?a @ s @ []" by (simp add: rjust_def)
  moreover have "list_all is_space ?a" "list_all is_space []"
    by (simp_all add: list_all_iff space_is_space)
  ultimately show "\<exists>a b. rjust w s = a @ s @ b \<and> list_all is_space a \<and> list_all is_space b"
    by blast
qed

lemma padded_center: "padded (center w)"
  unfolding padded_def
proof
  fix s :: string
  let ?a = "replicate ((w - length s) div 2) (CHR '' '')"
  let ?b = "replicate ((w - length s) - (w - length s) div 2) (CHR '' '')"
  have "center w s = ?a @ s @ ?b" by (simp add: center_def)
  moreover have "list_all is_space ?a" "list_all is_space ?b"
    by (simp_all add: list_all_iff space_is_space)
  ultimately show "\<exists>a b. center w s = a @ s @ b \<and> list_all is_space a \<and> list_all is_space b"
    by blast
qed


lemma cell_token_str: "cell_token v \<Longrightarrow> PStr (cell_str env v) = v \<and> token (cell_str env v)"
  by (cases v) (simp_all add: cell_token_def cell_str_def)

lemma cells_back:
  "list_all cell_token cells \<Longrightarrow> map PStr (map (cell_str env) cells) = cells"
  by (induction cells) (simp_all add: cell_token_str)

lemma cells_tokens:
  "list_all cell_token cells \<Longrightarrow> list_all token (map (cell_str env) cells)"
  by (induction cells) (simp_all add: cell_token_str)

lemma nl_tail: "list_all is_space [CHR 0x0A]" "[CHR 0x0A] \<noteq> []"
  by (simp_all add: space_is_space)

lemma split_row_line:
  assumes "token nm" and "list_all cell_token cells" and "row_fits nm cells"
  shows "py_split (row_line env nm cells) = nm # map (cell_str env) cells"
proof -
  let ?J = "join '' '' (map (rjust 14) (map (cell_str env) cells)) @ [CHR 0x0A]"
  let ?pad = "replicate (12 - length nm) (CHR '' '')"
  have line: "row_line env nm cells = nm @ (?pad @ ?J)"
    by (simp add: row_line_def ljust_def comp_def)
  have J: "split_from [] ?J = map (cell_str env) cells"
    using padded_rjust nl_tail cells_tokens [OF assms(2)] by (rule split_join)
  have hdJ: "is_space (hd ?J)" if "length nm \<ge> 12"
  proof (cases cells)
    case Nil
    then show ?thesis by (simp add: space_is_space)
  next
    case (Cons c cs)
    with assms(3) that obtain s where c: "c = PStr s" and s: "length s < 14"
      by (auto simp: row_fits_def split: pyval.splits)
    have "hd (rjust 14 s @ X) = CHR '' ''" for X
      using s by (simp add: rjust_def hd_append)
    then show ?thesis
      using Cons c by (cases cs) (simp_all add: cell_str_def space_is_space)
  qed
  have hd: "is_space (hd (?pad @ ?J))"
  proof (cases "length nm < 12")
    case True
    then have "hd (?pad @ ?J) = CHR '' ''" by (simp add: hd_append)
    then show ?thesis by (simp add: space_is_space)
  next
    case False
    then have "?pad = []" by simp
    with hdJ False show ?thesis by simp
  qed
  have "split_from [] (nm @ (?pad @ ?J)) = nm # split_from [] (?pad @ ?J)"
    using assms(1) _ hd by (rule split_token_then) simp
  also have "split_from [] (?pad @ ?J) = split_from [] ?J"
    by (rule split_skip_space) (simp add: list_all_iff space_is_space)
  finally show ?thesis
    unfolding py_split_def line J .
qed

lemma split_header_line:
  assumes "list_all token (headers P)"
  shows "py_split (header_line P) = ''!'' # ''Name'' # headers P"
proof -
  let ?J = "join '' '' (map (center 14) (headers P)) @ [CHR 0x0A]"
  have J: "split_from [] ?J = headers P"
    using padded_center nl_tail assms by (rule split_join)
  have "split_from [] (ljust 12 ''! Name'' @ ?J) = ''!'' # ''Name'' # split_from [] ?J"
    by (simp add: ljust_def replicate_numeral is_space_def whitespace_def)
  then show ?thesis
    unfolding py_split_def header_line_def J by simp
qed

lemma read_headers_written: "read_headers (''!'' # ''Name'' # hs) = Inr hs"
  by (simp add: read_headers_def)

section \<open>Reading the written text\<close>

lemma lines_from_body:
  "CHR 0x0A \<notin> set b \<Longrightarrow> CHR 0x0D \<notin> set b
   \<Longrightarrow> lines_from cur (b @ CHR 0x0A # rest) = (cur @ b @ [CHR 0x0A]) # lines_from [] rest"
proof (induction b arbitrary: cur)
  case Nil
  show ?case by (cases rest) simp_all
next
  case (Cons c b)
  obtain d ds where t: "b @ CHR 0x0A # rest = d # ds" by (cases b) auto
  have c: "c \<noteq> CHR 0x0A" "c \<noteq> CHR 0x0D" using Cons.prems by auto
  have "lines_from cur (c # d # ds) = lines_from (cur @ [c]) (d # ds)"
    using c by simp
  then have "lines_from cur ((c # b) @ CHR 0x0A # rest) = lines_from (cur @ [c]) (b @ CHR 0x0A # rest)"
    by (simp add: t)
  also have "\<dots> = ((cur @ [c]) @ b @ [CHR 0x0A]) # lines_from [] rest"
    using Cons.prems by (intro Cons.IH) auto
  finally show ?case by simp
qed

lemma readlines_concat:
  "\<forall>l \<in> set L. \<exists>b. l = b @ [CHR 0x0A] \<and> CHR 0x0A \<notin> set b \<and> CHR 0x0D \<notin> set b
   \<Longrightarrow> readlines (concat L) = L"
proof (induction L)
  case Nil
  show ?case by (simp add: readlines_def)
next
  case (Cons l L)
  then obtain b where b: "l = b @ [CHR 0x0A]" "CHR 0x0A \<notin> set b" "CHR 0x0D \<notin> set b"
    by auto
  have "lines_from [] (b @ CHR 0x0A # concat L) = ([] @ b @ [CHR 0x0A]) # lines_from [] (concat L)"
    using b(2,3) by (rule lines_from_body)
  then show ?case
    using Cons b(1) by (simp add: readlines_def)
qed


lemma plain_append: "plain (a @ b) \<longleftrightarrow> plain a \<and> plain b"
  by (auto simp: plain_def is_ascii_def)

lemma plain_spaces: "plain (replicate n (CHR '' ''))"
  by (auto simp: plain_def is_ascii_def)

lemma plain_token: "token t \<Longrightarrow> is_ascii t \<Longrightarrow> plain t"
  by (auto simp: plain_def token_def is_space_def whitespace_def)

lemma plain_join: "list_all plain xs \<Longrightarrow> plain (join '' '' xs)"
proof (induction xs rule: induct_list012)
  case 1
  show ?case by (simp add: plain_def is_ascii_def)
next
  case (2 x)
  then show ?case by simp
next
  case (3 x y zs)
  have "join '' '' (x # y # zs) = x @ '' '' @ join '' '' (y # zs)" by simp
  moreover have "plain '' ''" using plain_spaces [of 1] by simp
  moreover have "plain x" "plain (join '' '' (y # zs))" using 3 by simp_all
  ultimately show ?case by (simp only: plain_append)
qed

lemma plain_ascii_line: "plain b \<Longrightarrow> is_ascii (b @ [CHR 0x0A])"
  by (auto simp: plain_def is_ascii_def)

lemma header_line_plain:
  assumes "list_all ascii_token (headers P)"
  shows "\<exists>b. header_line P = b @ [CHR 0x0A] \<and> plain b"
proof -
  let ?b = "ljust 12 ''! Name'' @ join '' '' (map (center 14) (headers P))"
  have "list_all plain (map (center 14) (headers P))"
    using assms
    by (auto simp: list_all_iff center_def plain_append plain_spaces ascii_token_def
        intro: plain_token)
  then have "plain (join '' '' (map (center 14) (headers P)))" by (rule plain_join)
  moreover have "plain (ljust 12 ''! Name'')"
    by (simp add: ljust_def plain_def is_ascii_def)
  ultimately have "plain ?b" by (simp add: plain_append)
  moreover have "header_line P = ?b @ [CHR 0x0A]" by (simp add: header_line_def)
  ultimately show ?thesis by blast
qed

lemma cell_plain: "cell_token v \<Longrightarrow> plain (cell_str env v)"
  by (cases v) (auto simp: cell_token_def cell_str_def ascii_token_def intro: plain_token)

lemma row_line_plain:
  assumes "ascii_token nm" and "list_all cell_token cells"
  shows "\<exists>b. row_line env nm cells = b @ [CHR 0x0A] \<and> plain b"
proof -
  let ?b = "ljust 12 nm @ join '' '' (map (\<lambda>col. rjust 14 (cell_str env col)) cells)"
  have "list_all plain (map (\<lambda>col. rjust 14 (cell_str env col)) cells)"
    using assms(2)
    by (auto simp: list_all_iff rjust_def plain_append plain_spaces intro: cell_plain)
  then have "plain (join '' '' (map (\<lambda>col. rjust 14 (cell_str env col)) cells))"
    by (rule plain_join)
  moreover have "plain (ljust 12 nm)"
    using assms(1) by (simp add: ljust_def plain_append plain_spaces plain_token ascii_token_def)
  ultimately have "plain ?b" by (simp add: plain_append)
  moreover have "row_line env nm cells = ?b @ [CHR 0x0A]" by (simp add: row_line_def)
  ultimately show ?thesis by blast
qed

lemma row_lines_all:
  "\<forall>m \<in> set ms. m < length (names P) \<and> m < length (entries P)
   \<Longrightarrow> row_lines env P ms
         = (map (\<lambda>m. row_line env (names P ! m) (entries P ! m)) ms, None)"
  by (induction ms) simp_all

lemma mem_env_sel:
  "os_isfile (mem_env f r c) fs p \<longleftrightarrow> fs p \<noteq> None"
  "write_ascii (mem_env f r c) = mem_write"
  "read_ascii (mem_env f r c) = mem_read"
  by (simp_all add: mem_env_def)

lemma mem_write_ascii:
  "\<forall>l \<in> set ls. is_ascii l \<Longrightarrow> mem_write p ls fs = (None, fs(p := Some (concat ls)))"
proof -
  assume "\<forall>l \<in> set ls. is_ascii l"
  then have tw: "takeWhile is_ascii ls = ls" by simp
  show ?thesis unfolding mem_write_def Let_def tw by simp
qed

lemma is_ascii_concat: "\<forall>l \<in> set ls. is_ascii l \<Longrightarrow> is_ascii (concat ls)"
  by (auto simp: is_ascii_def)


lemma written_lines:
  fixes env :: "'w env"
  assumes "consistent P" and "distinct (names P)"
    and "list_all ascii_token (names P)"
    and "list_all (list_all cell_token) (entries P)"
  defines "R \<equiv> map (\<lambda>m. row_line env (names P ! m) (entries P ! m)) [0..<length (names P)]"
  shows "row_lines env P [0..<countrows P] = (R, None)"
    and "\<forall>l \<in> set R. \<exists>b. l = b @ [CHR 0x0A] \<and> plain b"
proof -
  have len: "length (entries P) = length (names P)" using assms(1) by (simp add: consistent_def)
  have n: "countrows P = length (names P)"
    using consistent_counts(1) [OF assms(1)] assms(2) by (simp add: distinct_card)
  show "row_lines env P [0..<countrows P] = (R, None)"
    unfolding n R_def by (rule row_lines_all) (simp add: len)
  show "\<forall>l \<in> set R. \<exists>b. l = b @ [CHR 0x0A] \<and> plain b"
  proof
    fix l assume "l \<in> set R"
    then obtain m where m: "m < length (names P)"
      and l: "l = row_line env (names P ! m) (entries P ! m)"
      by (auto simp: R_def)
    have "ascii_token (names P ! m)" using assms(3) m by (simp add: list_all_length)
    moreover have "list_all cell_token (entries P ! m)"
      using assms(4) m len by (simp add: list_all_length)
    ultimately show "\<exists>b. l = b @ [CHR 0x0A] \<and> plain b"
      unfolding l by (rule row_line_plain)
  qed
qed

lemma read_written_rows:
  fixes env :: "'w env"
  assumes "length (entries P) = length (names P)"
    and "list_all ascii_token (names P)"
    and "list_all (list_all cell_token) (entries P)"
    and "list_all2 row_fits (names P) (entries P)"
  defines "R \<equiv> map (\<lambda>m. row_line env (names P ! m) (entries P ! m)) [0..<length (names P)]"
  shows "\<forall>l \<in> set R. py_split l \<noteq> []"
    and "map (\<lambda>l. hd (py_split l)) R = names P"
    and "map (\<lambda>l. map PStr (tl (py_split l))) R = entries P"
proof -
  have sp: "py_split (row_line env (names P ! m) (entries P ! m))
              = names P ! m # map (cell_str env) (entries P ! m)"
    if "m < length (names P)" for m
  proof -
    have "token (names P ! m)"
      using assms(2) that by (simp add: list_all_length ascii_token_def)
    moreover have "list_all cell_token (entries P ! m)"
      using assms(1,3) that by (simp add: list_all_length)
    moreover have "row_fits (names P ! m) (entries P ! m)"
      using assms(4) that by (simp add: list_all2_conv_all_nth)
    ultimately show ?thesis by (rule split_row_line)
  qed
  show "\<forall>l \<in> set R. py_split l \<noteq> []"
    using sp by (auto simp: R_def)
  have "map (\<lambda>l. hd (py_split l)) R = map (\<lambda>m. names P ! m) [0..<length (names P)]"
    using sp by (simp add: R_def)
  then show "map (\<lambda>l. hd (py_split l)) R = names P" by (simp add: map_nth)
  have cells: "map PStr (map (cell_str env) (entries P ! m)) = entries P ! m"
    if "m < length (names P)" for m
    using assms(1,3) that by (intro cells_back) (simp add: list_all_length)
  have "map (\<lambda>l. map PStr (tl (py_split l))) R
          = map (\<lambda>m. entries P ! m) [0..<length (entries P)]"
    using sp cells by (simp add: R_def assms(1))
  then show "map (\<lambda>l. map PStr (tl (py_split l))) R = entries P" by (simp add: map_nth)
qed

lemma init_demo_text:
  assumes "fs ''d/a.map'' = Some (header_line demo_table @ row_line demo_env ''x'' [PStr ''1''])"
  shows "init demo_env fs ''d/a.map''
     = Inr (demo_table, [''Pedestal object successfully created. 1 rows were added.''])"
  using assms
  by (simp add: init_def slice_from_def slice_bound_def demo_env_isfile
      name_loop_demo demo_env_read mem_read_def ascii_header ascii_row is_ascii_append
      parse_demo_dir demo_rows str_nat_1 del: str_nat.simps)

lemma demo_env_write: "write_ascii demo_env = mem_write"
  by (simp add: demo_env_def mem_env_def)

lemma dup_lines:
  "row_lines env dup_table [0..<countrows dup_table] = ([row_line env ''x'' [PStr ''1'']], None)"
  by (simp add: countrows_def dup_table_def)

lemma dup_header: "header_line dup_table = header_line demo_table"
  by (simp add: header_line_def dup_table_def demo_table_def)

lemma dup_write:
  "writemap demo_env p dup_table fs
     = (None, fs(p := Some (header_line demo_table @ row_line demo_env ''x'' [PStr ''1''])))"
  by (simp add: writemap_def dup_lines dup_header demo_env_write mem_write_def ascii_header
      ascii_row)

lemma long_name_merges:
  "py_split (row_line env ''TQ01_R1_LONG'' [PStr ''12345678901234''])
     = [''TQ01_R1_LONG12345678901234'']"
  by (simp add: row_line_def ljust_def rjust_def cell_str_def py_split_def is_space_def
      whitespace_def)

lemma demo_env_mem:
  "demo_env = mem_env (\<lambda>x. ''nan'') (\<lambda>s. py_int s) (\<lambda>body. Inr ([], None))"
  by (simp add: demo_env_def)

section \<open>Claim about writing and reading back\<close>

text \<open>
  Claim C1 (as amended). Let the table be one that the constructor and the mutators
  produce (the mappings index the headers and the names, every name has its entry),
  with pairwise distinct row names, with headers, row names and cells that are
  non-empty ASCII strings without whitespace, and with a name shorter than 12 or a
  first cell shorter than 14 characters in every row. Then \<^verbatim>\<open>writemap\<close> to a path that
  the constructor accepts succeeds, and the constructor on the written file builds a
  table with the same headers, the same row names and the same cells in the same order,
  and the same two mappings. Rows whose name and first cell are both longer are left
  out of the statement; lemma \<open>long_name_merges\<close> shows what the code does with one.
\<close>

theorem written_map_is_read_back:
  fixes fstr rate csv
  defines "E \<equiv> mem_env fstr rate csv"
  assumes "consistent P" and "distinct (names P)"
    and "list_all ascii_token (headers P)"
    and "list_all ascii_token (names P)"
    and "list_all (list_all cell_token) (entries P)"
    and "list_all2 row_fits (names P) (entries P)"
    and "5 \<le> length fp" and "drop (length fp - 4) fp = ''.map''"
  shows "writemap E fp P fs = (None, fs(fp := Some (map_text E P)))
       \<and> (\<exists>P' out. init E (fs(fp := Some (map_text E P))) fp = Inr (P', out)
             \<and> headers P' = headers P \<and> names P' = names P \<and> entries P' = entries P
             \<and> cols P' = cols P \<and> rows P' = rows P)"
proof -
  let ?R = "map (\<lambda>m. row_line E (names P ! m) (entries P ! m)) [0..<length (names P)]"
  let ?L = "header_line P # ?R"
  have sel: "\<And>w p. os_isfile E w p \<longleftrightarrow> w p \<noteq> None"
    "write_ascii E = mem_write" "read_ascii E = mem_read"
    by (simp_all add: E_def mem_env_sel)
  have len: "length (entries P) = length (names P)" using assms(2) by (simp add: consistent_def)
  have rl: "row_lines E P [0..<countrows P] = (?R, None)"
    and rows_ok: "\<forall>l \<in> set ?R. \<exists>b. l = b @ [CHR 0x0A] \<and> plain b"
    using written_lines [OF assms(2,3,5,6), of E] by simp_all
  have head_ok: "\<exists>b. header_line P = b @ [CHR 0x0A] \<and> plain b"
    using assms(4) by (rule header_line_plain)
  have lines_ok: "\<forall>l \<in> set ?L. \<exists>b. l = b @ [CHR 0x0A] \<and> plain b"
    using head_ok rows_ok by simp
  then have ascii: "\<forall>l \<in> set ?L. is_ascii l"
    by (metis plain_ascii_line)
  have mt: "map_text E P = concat ?L" by (simp add: map_text_def rl)
  have wr: "writemap E fp P fs = (None, fs(fp := Some (map_text E P)))"
    unfolding writemap_def rl mt
    using mem_write_ascii [OF ascii, of fp fs] by (simp add: sel)
  have lines: "readlines (map_text E P) = ?L"
    unfolding mt
  proof (rule readlines_concat)
    show "\<forall>l \<in> set ?L. \<exists>b. l = b @ [CHR 0x0A] \<and> CHR 0x0A \<notin> set b \<and> CHR 0x0D \<notin> set b"
      using lines_ok by (metis plain_def)
  qed
  have hs: "read_headers (py_split (header_line P)) = Inr (headers P)"
  proof -
    have "list_all token (headers P)"
      using assms(4) by (simp add: list_all_iff ascii_token_def)
    then show ?thesis by (simp add: split_header_line read_headers_written)
  qed
  have nonempty: "\<forall>l \<in> set ?R. py_split l \<noteq> []"
    and nms: "map (\<lambda>l. hd (py_split l)) ?R = names P"
    and ents: "map (\<lambda>l. map PStr (tl (py_split l))) ?R = entries P"
    using read_written_rows [OF len assms(5,6,7), of E] by simp_all
  from name_loop_start [OF assms(8)] obtain nm pth where
    nl: "name_loop fp (- 5) = Inr (nm, pth)" by blast
  let ?P' = "\<lparr>cols = read_cols (headers P) 0 [], entries = entries P, headers = headers P,
              name = nm, names = names P, path = pth,
              rows = read_cols (names P) 0 []\<rparr>"
  have rr: "read_rows ?R 0
              \<lparr>cols = read_cols (headers P) 0 [], entries = [], headers = headers P, name = nm,
               names = [], path = pth, rows = []\<rparr> = Inr ?P'"
    using nonempty nms ents by (simp add: read_rows_result)
  have parse: "parse_map nm pth (map_text E P) = Inr ?P'"
    unfolding parse_map_def lines Let_def
    by (simp only: list.case list.sel hs sum.case rr)
  have ext: "slice_from fp (- 4) = ''.map''"
    using assms(8,9) by (simp add: slice_from_def slice_bound_def nat_diff_distrib')
  have rd: "mem_read fp (fs(fp := Some (map_text E P))) = Inr (map_text E P)"
    using is_ascii_concat [OF ascii] by (simp add: mem_read_def mt)
  have "init E (fs(fp := Some (map_text E P))) fp
          = Inr (?P', [''Pedestal object successfully created. ''
                        @ str_nat (countrows ?P') @ '' rows were added.''])"
    unfolding init_def using assms(8) ext
    by (simp add: nl rd parse sel del: str_nat.simps)
  moreover have "cols ?P' = cols P" "rows ?P' = rows P"
    using assms(2) by (simp_all add: consistent_def)
  ultimately show ?thesis
    using wr by auto
qed


text \<open>
  Witness for C1: the example table written to \<open>d/a.map\<close> in an empty directory and
  read back.
\<close>

theorem written_map_is_read_back_witness:
  "writemap demo_env ''d/a.map'' demo_table Map.empty
     = (None, Map.empty(''d/a.map'' := Some (map_text demo_env demo_table)))
   \<and> (\<exists>P' out. init demo_env (Map.empty(''d/a.map'' := Some (map_text demo_env demo_table)))
                   ''d/a.map'' = Inr (P', out)
        \<and> headers P' = [''A''] \<and> names P' = [''x''] \<and> entries P' = [[PStr ''1'']]
        \<and> cols P' = [(''A'', 0)] \<and> rows P' = [(''x'', 0)])"
proof -
  have h1: "consistent demo_table" by (simp add: consistent_def demo_table_def)
  have h2: "distinct (names demo_table)" by (simp add: demo_table_def)
  have h3: "list_all ascii_token (headers demo_table)"
    by (simp add: demo_table_def ascii_token_def token_def is_ascii_def is_space_def
        whitespace_def)
  have h4: "list_all ascii_token (names demo_table)"
    by (simp add: demo_table_def ascii_token_def token_def is_ascii_def is_space_def
        whitespace_def)
  have h5: "list_all (list_all cell_token) (entries demo_table)"
    by (simp add: demo_table_def cell_token_def ascii_token_def token_def is_ascii_def
        is_space_def whitespace_def)
  have h6: "list_all2 row_fits (names demo_table) (entries demo_table)"
    by (simp add: demo_table_def row_fits_def)
  have h7: "5 \<le> length ''d/a.map''" by simp
  have h8: "drop (length ''d/a.map'' - 4) ''d/a.map'' = ''.map''" by simp
  show ?thesis
    using written_map_is_read_back [OF h1 h2 h3 h4 h5 h6 h7 h8, of "\<lambda>x. ''nan''"
        "\<lambda>s. py_int s" "\<lambda>body. Inr ([], None)" Map.empty]
    unfolding demo_env_mem [symmetric]
    by (simp add: demo_table_def)
qed


text \<open>
  Counterexample to C1 as stated: the table built from the file with the row name \<open>x\<close>
  on two lines has two rows of non-empty strings without whitespace. \<^verbatim>\<open>writemap\<close>
  loops over \<^verbatim>\<open>range(self.countrows())\<close>, the size of the row mapping, and writes one
  row only; the table read back has one row.
\<close>

theorem written_map_loses_row_counterexample:
  "init demo_env dup_file ''d/a.map''
     = Inr (dup_table, [''Pedestal object successfully created. 1 rows were added.''])
   \<and> names dup_table = [''x'', ''x'']
   \<and> entries dup_table = [[PStr ''1''], [PStr ''2'']]
   \<and> fst (writemap demo_env ''d/a.map'' dup_table dup_file) = None
   \<and> init demo_env (snd (writemap demo_env ''d/a.map'' dup_table dup_file)) ''d/a.map''
       = Inr (demo_table, [''Pedestal object successfully created. 1 rows were added.''])
   \<and> names demo_table = [''x'']
   \<and> entries demo_table = [[PStr ''1'']]"
  using init_dup by (simp add: dup_write init_demo_text) (simp add: dup_table_def demo_table_def)

section \<open>The float of an integer\<close>

lemma bit_length_bound: "n < 2 ^ b \<Longrightarrow> bit_length n \<le> b"
proof (induction n arbitrary: b rule: bit_length.induct)
  case (1 n)
  show ?case
  proof (cases "n = 0")
    case True
    then show ?thesis by (simp add: bit_length.simps)
  next
    case False
    with "1.prems" obtain b' where b: "b = Suc b'" by (cases b) auto
    with "1.prems" have "n < 2 * 2 ^ b'" by simp
    then have "n div 2 < 2 ^ b'" by (simp add: less_mult_imp_div_less mult.commute)
    with "1.IH" [OF False] have "bit_length (n div 2) \<le> b'" by simp
    with False b show ?thesis by (subst bit_length.simps) simp
  qed
qed

lemma nearest_float_small: "\<bar>i\<bar> < 2 ^ 53 \<Longrightarrow> nearest_float i = Finite (i < 0) (nat \<bar>i\<bar>) 0"
proof -
  assume "\<bar>i\<bar> < 2 ^ 53"
  then have "nat \<bar>i\<bar> < 2 ^ 53" by (simp add: nat_less_iff)
  then have "bit_length (nat \<bar>i\<bar>) \<le> 53" by (rule bit_length_bound)
  then have k: "bit_length (nat \<bar>i\<bar>) - 53 = 0" by simp
  show ?thesis unfolding nearest_float_def Let_def k by simp
qed

lemma float_constants:
  "float_of_int current = Inr (Finite False 100 0)"
  "float_of_int num_samples = Inr (Finite False 15000 0)"
  by (simp_all add: float_of_int_def current_def num_samples_def nearest_float_small)

lemma cell_at_found:
  assumes "map_of (rows P) row = Some r" and "r < length (entries P)"
    and "map_of (cols P) col = Some c" and "c < length (entries P ! r)"
  shows "cell_at P row col = Inr (entries P ! r ! c)"
  using assms by (simp add: cell_at_def dict_get_def py_index_def py_idx_def)

lemma py_int_small: "py_int ''2'' = Inr 2" "py_int ''3'' = Inr 3"
  by (simp_all add: py_int_def int_strip_def is_int_space_def int_whitespace_def
      int_of_digits_def int_max_str_digits_def is_digit_def digits_val_def digit_val_def)

lemma py_int_exponent: "py_int ''1.5e9'' = Inl (ValueError ''invalid literal for int() with base 10'')"
  by (simp add: py_int_def int_strip_def is_int_space_def int_whitespace_def
      int_of_digits_def is_digit_def)

lemma demo_float_2: "float_of_str demo_ops ''2'' = Inr (Finite False 2 0)"
  by (simp add: demo_ops_def py_int_small float_of_int_def nearest_float_small)

lemma hwsum_needs_integer_rate:
  "hwsum ops rate_text_table ''x'' =
     (case float_of_str ops ''2'' of
        Inl e \<Rightarrow> Inl e
      | Inr v \<Rightarrow> Inl (ValueError ''invalid literal for int() with base 10''))"
  by (simp add: hwsum_def voltperhz_def normrate_def cell_at_def dict_get_def py_index_def
      py_idx_def rate_text_table_def volt_table_def py_float_def int_of_val_def py_int_exponent
      split: sum.splits)

section \<open>Claim about the hardware sum\<close>

text \<open>
  Claim C9 (as amended). Let the row name be a key of the row mapping and both columns
  \<open>VoltPerHz\<close> and \<open>NormRate(Hz/uA)\<close> be present, with the cells in range; let
  \<^verbatim>\<open>float\<close> of the first cell return \<open>v\<close> and \<^verbatim>\<open>int\<close> of the second return \<open>n\<close>, an
  integer below the overflow bound of \<^verbatim>\<open>float\<close>. Then \<^verbatim>\<open>voltperhz\<close> returns \<open>v\<close>,
  \<^verbatim>\<open>normrate\<close> returns \<open>n\<close>, and \<^verbatim>\<open>hwsum\<close> returns the pair of
  \<open>mean = v * n * 100\<close> and \<open>stddev = sqrt(15000) * v / 0.002\<close>, computed in floats from
  left to right, for every choice of the rounded float operations.
\<close>

theorem hwsum_formula:
  assumes "map_of (rows P) row = Some r" and "r < length (entries P)"
    and "map_of (cols P) ''VoltPerHz'' = Some cv" and "cv < length (entries P ! r)"
    and "py_float ops (entries P ! r ! cv) = Inr v"
    and "map_of (cols P) ''NormRate(Hz/uA)'' = Some cn" and "cn < length (entries P ! r)"
    and "int_of_val (entries P ! r ! cn) = Inr n"
    and "\<bar>n\<bar> < 2 ^ 1024 - 2 ^ 970"
  shows "voltperhz ops P row = Inr v \<and> normrate P row = Inr n
       \<and> hwsum ops P row = Inr (spec_mean ops v n, spec_stddev ops v)"
proof -
  have v: "voltperhz ops P row = Inr v"
    using cell_at_found [OF assms(1,2,3,4)] assms(5) by (simp add: voltperhz_def)
  have n: "normrate P row = Inr n"
    using cell_at_found [OF assms(1,2,6,7)] assms(8) by (simp add: normrate_def)
  have conv: "float_of_int n = Inr (nearest_float n)"
    using assms(9) by (simp add: float_of_int_def)
  have sq: "math_sqrt ops (Finite False 15000 0) = Inr (float_sqrt ops (Finite False 15000 0))"
    by (simp add: math_sqrt_def float_negative_def)
  have dv: "truediv ops a time = Inr (float_div ops a (Finite False 0x10624DD2F1A9FC (- 61)))" for a
    by (simp add: truediv_def float_zero_def time_def)
  have "hwsum ops P row = Inr (spec_mean ops v n, spec_stddev ops v)"
    by (simp add: hwsum_def v n conv float_constants sq dv spec_mean_def spec_stddev_def)
  with v n show ?thesis by simp
qed

text \<open>
  Witness for C9: the table with the cells \<open>2\<close> and \<open>3\<close>, where the mean is the float
  product \<open>2 * 3 * 100 = 600\<close> and the standard deviation is the quotient of
  \<open>sqrt(15000) * 2\<close> by the double \<open>0.002\<close>, in the operations of the example.
\<close>

theorem hwsum_formula_witness:
  "voltperhz demo_ops volt_table ''x'' = Inr (Finite False 2 0)
   \<and> normrate volt_table ''x'' = Inr 3
   \<and> float_mul demo_ops (float_mul demo_ops (Finite False 2 0) (Finite False 3 0))
       (Finite False 100 0) = Finite False 600 0
   \<and> hwsum demo_ops volt_table ''x''
       = Inr (Finite False 600 0,
              float_div demo_ops
                (float_mul demo_ops (float_sqrt demo_ops (Finite False 15000 0)) (Finite False 2 0))
                (Finite False 0x10624DD2F1A9FC (- 61)))"
proof -
  have h1: "map_of (rows volt_table) ''x'' = Some 0" by (simp add: volt_table_def)
  have h2: "0 < length (entries volt_table)" by (simp add: volt_table_def)
  have h3: "map_of (cols volt_table) ''VoltPerHz'' = Some 0" by (simp add: volt_table_def)
  have h4: "0 < length (entries volt_table ! 0)" by (simp add: volt_table_def)
  have h5: "py_float demo_ops (entries volt_table ! 0 ! 0) = Inr (Finite False 2 0)"
    by (simp add: volt_table_def py_float_def demo_float_2)
  have h6: "map_of (cols volt_table) ''NormRate(Hz/uA)'' = Some 1" by (simp add: volt_table_def)
  have h7: "1 < length (entries volt_table ! 0)" by (simp add: volt_table_def)
  have h8: "int_of_val (entries volt_table ! 0 ! 1) = Inr 3"
    by (simp add: volt_table_def int_of_val_def py_int_small)
  have h9: "\<bar>3 :: int\<bar> < 2 ^ 1024 - 2 ^ 970" by simp
  have nf: "nearest_float 3 = Finite False 3 0" by (simp add: nearest_float_small)
  have mean: "float_mul demo_ops (float_mul demo_ops (Finite False 2 0) (Finite False 3 0))
                (Finite False 100 0) = Finite False 600 0"
    by (simp add: demo_ops_def)
  show ?thesis
    using hwsum_formula [OF h1 h2 h3 h4 h5 h6 h7 h8 h9]
    by (simp add: spec_mean_def spec_stddev_def nf mean)
qed

text \<open>
  Counterexample to C9 as stated: the row \<open>x\<close> is present and its rate cell holds the
  text \<open>1.5e9\<close>, which \<^verbatim>\<open>float\<close> reads and \<^verbatim>\<open>int\<close> refuses. \<^verbatim>\<open>hwsum\<close> raises
  \<^verbatim>\<open>ValueError\<close> and returns no pair.
\<close>

theorem hwsum_raises_counterexample:
  "map_of (rows rate_text_table) ''x'' = Some 0
   \<and> hwsum demo_ops rate_text_table ''x''
       = Inl (ValueError ''invalid literal for int() with base 10'')"
  by (simp add: hwsum_needs_integer_rate demo_float_2) (simp add: rate_text_table_def volt_table_def)

section \<open>Saving in memory\<close>

lemma row_lines_exn: "snd (row_lines env P ms) = None \<or> snd (row_lines env P ms) = Some IndexError"
  by (induction ms) (auto split: prod.splits)

lemma writemap_mem:
  assumes "writemap (mem_env f r c) p P fs = (e, fs')"
  shows "(e = None \<or> e = Some IndexError \<or> e = Some UnicodeError)
       \<and> (\<exists>body. fs' = fs(p := Some body))"
proof -
  obtain ls e0 where rl: "row_lines (mem_env f r c) P [0..<countrows P] = (ls, e0)"
    by (cases "row_lines (mem_env f r c) P [0..<countrows P]")
  have e0: "e0 = None \<or> e0 = Some IndexError"
    using row_lines_exn [of "mem_env f r c" P "[0..<countrows P]"] rl by simp
  show ?thesis
    using assms e0
    by (auto simp: writemap_def rl mem_env_sel mem_write_def Let_def split: if_splits)
qed

lemma saved_lines:
  "row_lines env (demo_table\<lparr>entries := [[PInt 5]]\<rparr>)
      [0..<countrows (demo_table\<lparr>entries := [[PInt 5]]\<rparr>)]
     = ([row_line env ''x'' [PInt 5]], None)"
  by (simp add: countrows_def demo_table_def)

lemma saved_text:
  "header_line (demo_table\<lparr>entries := [[PInt 5]]\<rparr>) @ row_line env ''x'' [PInt 5]
     = ''! Name            A       '' @ [CHR 0x0A] @ ''x                        5'' @ [CHR 0x0A]"
  by (simp add: header_line_def row_line_def demo_table_def ljust_def rjust_def center_def
      cell_str_def str_int_def digit_char_def replicate_numeral)

lemma saved_write:
  "writemap demo_env p (demo_table\<lparr>entries := [[PInt 5]]\<rparr>) fs
     = (None, fs(p := Some (''! Name            A       '' @ [CHR 0x0A]
                            @ ''x                        5'' @ [CHR 0x0A])))"
proof -
  have a: "is_ascii (header_line (demo_table\<lparr>entries := [[PInt 5]]\<rparr>))"
    by (simp add: is_ascii_def header_line_def demo_table_def ljust_def center_def)
  have b: "is_ascii (row_line demo_env ''x'' [PInt 5])"
    by (simp add: is_ascii_def row_line_def ljust_def rjust_def cell_str_def str_int_def
        digit_char_def)
  show ?thesis
    using saved_text [of demo_env]
    by (simp add: writemap_def saved_lines demo_env_write mem_write_def a b)
qed

lemma saved_paths:
  "currentfile (demo_table\<lparr>entries := [[PInt 5]]\<rparr>) = ''d/a.map''"
  "oldfile (demo_table\<lparr>entries := [[PInt 5]]\<rparr>) = ''d/a_old.map''"
  by (simp_all add: currentfile_def oldfile_def pathname_def demo_table_def)

section \<open>Claim about the file that is saved\<close>

text \<open>
  Claim C10. Let the constructor accept \<open>filepath\<close> and build \<open>P0\<close>, and let \<open>P\<close> be the
  object after any sequence of mutator calls. Then \<open>path + name + .map\<close> is \<open>filepath\<close>,
  with an empty \<open>path\<close> when \<open>filepath\<close> has no slash; \<open>currentfile\<close> is \<open>filepath\<close> and
  \<open>oldfile\<close> is \<open>filepath\<close> with \<open>_old.map\<close> in place of \<open>.map\<close>. And \<^verbatim>\<open>save\<close>, run on files
  in memory, touches these two files and no other: with a backup present it prints the
  error and changes nothing; without the file at \<open>filepath\<close> the rename raises; otherwise
  the old text is moved to the backup, the table is written to \<open>filepath\<close>, and when the
  write has returned the backup is removed and \<open>Save successful.\<close> is printed.
\<close>

theorem save_targets_constructed_file:
  fixes fstr rate csv and env :: "'w env" and u :: 'w and P0 :: pedestal and calls :: "call list"
    and filepath :: string
  defines "E \<equiv> mem_env fstr rate csv"
  defines "P \<equiv> foldl (apply_call env u) P0 calls"
  defines "backup \<equiv> take (length filepath - 4) filepath @ ''_old.map''"
  assumes "init env w filepath = Inr (P0, out)"
  shows "path P @ name P @ ''.map'' = filepath
       \<and> (CHR ''/'' \<notin> set filepath \<longrightarrow> path P = [])
       \<and> currentfile P = filepath \<and> oldfile P = backup
       \<and> save E P fs =
           (if fs backup \<noteq> None then (fs, [''Runtime error occurred.''], None)
            else case fs filepath of
                   None \<Rightarrow> (fs, [], Some (OSError ''No such file or directory''))
                 | Some old_text \<Rightarrow>
                     (case writemap E filepath P ((fs(filepath := None))(backup := Some old_text)) of
                        (Some e, fs2) \<Rightarrow> (fs2, [], Some e)
                      | (None, fs2) \<Rightarrow> (fs2(backup := None), [''Save successful.''], None)))
       \<and> (\<forall>p. p \<noteq> filepath \<and> p \<noteq> backup \<longrightarrow> fst (save E P fs) p = fs p)"
proof -
  have sel: "\<And>w p. os_isfile E w p \<longleftrightarrow> w p \<noteq> None"
    "os_rename E = mem_rename" "os_remove E = mem_remove"
    by (simp_all add: E_def mem_env_def)
  have sh: "same_shape P0 P" unfolding P_def by (rule foldl_calls_shape)
  then have np: "name P = name P0" "path P = path P0" by (simp_all add: same_shape_def)
  from init_name_path [OF assms(4)] have
    nl: "name_loop filepath (- 5) = Inr (name P0, path P0)" and len: "5 \<le> length filepath"
    and ext: "drop (length filepath - 4) filepath = ''.map''"
    by simp_all
  from name_loop_start [OF len] nl have
    cat: "path P0 @ name P0 = take (length filepath - 4) filepath"
    and dir: "path P0 = [] \<or> last (path P0) = CHR ''/''"
    by auto
  have whole: "take (length filepath - 4) filepath @ ''.map'' = filepath"
    using ext append_take_drop_id [of "length filepath - 4" filepath] by simp
  have "path P0 @ name P0 @ ''.map'' = (path P0 @ name P0) @ ''.map''" by simp
  then have full: "path P @ name P @ ''.map'' = filepath"
    unfolding np cat whole .
  have empty: "path P = []" if "CHR ''/'' \<notin> set filepath"
  proof (rule ccontr)
    assume "path P \<noteq> []"
    with dir np have "CHR ''/'' \<in> set (path P0)" by (metis last_in_set)
    then have "CHR ''/'' \<in> set (take (length filepath - 4) filepath)"
      unfolding cat [symmetric] by simp
    then have "CHR ''/'' \<in> set filepath" by (rule in_set_takeD)
    with that show False by simp
  qed
  have cur: "currentfile P = filepath"
    using full by (simp add: currentfile_def pathname_def)
  have old: "oldfile P = backup"
    by (simp add: oldfile_def pathname_def np cat backup_def)
  have lb: "length backup = length filepath - 4 + 8"
    by (simp add: backup_def)
  have ne: "filepath \<noteq> backup"
  proof
    assume "filepath = backup"
    then have "length filepath = length backup" by (rule arg_cong)
    with lb len show False by arith
  qed
  have sv: "save E P fs =
           (if fs backup \<noteq> None then (fs, [''Runtime error occurred.''], None)
            else case fs filepath of
                   None \<Rightarrow> (fs, [], Some (OSError ''No such file or directory''))
                 | Some old_text \<Rightarrow>
                     (case writemap E filepath P ((fs(filepath := None))(backup := Some old_text)) of
                        (Some e, fs2) \<Rightarrow> (fs2, [], Some e)
                      | (None, fs2) \<Rightarrow> (fs2(backup := None), [''Save successful.''], None)))"
  proof (cases "fs backup")
    case (Some b)
    then show ?thesis by (simp add: save_def save_try_def cur old sel)
  next
    case None
    note nobackup = None
    show ?thesis
    proof (cases "fs filepath")
      case None
      with nobackup show ?thesis
        by (simp add: save_def save_try_def cur old sel mem_rename_def)
    next
      case (Some t)
      let ?fs1 = "(fs(filepath := None))(backup := Some t)"
      obtain e fs2 where wm: "writemap E filepath P ?fs1 = (e, fs2)"
        by (cases "writemap E filepath P ?fs1")
      from writemap_mem [OF wm [unfolded E_def]] obtain body where
        e: "e = None \<or> e = Some IndexError \<or> e = Some UnicodeError"
        and fs2: "fs2 = ?fs1(filepath := Some body)"
        by blast
      have rn: "mem_rename filepath backup fs = (None, ?fs1)"
        using Some by (simp add: mem_rename_def)
      have rm: "mem_remove backup fs2 = (None, fs2(backup := None))"
        using ne by (simp add: mem_remove_def fs2)
      have chk: "fs2 filepath \<noteq> None" "fs2 backup \<noteq> None"
        using ne by (simp_all add: fs2)
      show ?thesis
        using e nobackup Some ne
        by (auto simp: save_def save_try_def cur old sel rn wm rm chk)
    qed
  qed
  have frame: "fst (save E P fs) p = fs p" if p: "p \<noteq> filepath" "p \<noteq> backup" for p
  proof (cases "fs backup")
    case (Some b)
    then show ?thesis unfolding sv by simp
  next
    case None
    note nobackup = None
    show ?thesis
    proof (cases "fs filepath")
      case None
      with nobackup show ?thesis unfolding sv by simp
    next
      case (Some t)
      let ?fs1 = "(fs(filepath := None))(backup := Some t)"
      obtain e fs2 where wm: "writemap E filepath P ?fs1 = (e, fs2)"
        by (cases "writemap E filepath P ?fs1")
      from writemap_mem [OF wm [unfolded E_def]] obtain body where
        fs2: "fs2 = ?fs1(filepath := Some body)"
        by blast
      have "fs2 p = fs p" using p by (simp add: fs2)
      then show ?thesis
        unfolding sv using nobackup Some p by (cases e) (simp_all add: wm)
    qed
  qed
  show ?thesis using full empty cur old sv frame by simp
qed

text \<open>
  Witness for C10: the object built from \<open>d/a.map\<close>, after four mutator calls, is saved
  to \<open>d/a.map\<close>, which then holds the new cell \<open>5\<close>, and no backup \<open>d/a_old.map\<close> is left;
  the other file, \<open>a.map\<close>, is as it was. The object built from \<open>a.map\<close>, a path with no
  slash, has an empty \<open>path\<close>.
\<close>

theorem save_targets_constructed_file_witness:
  "init demo_env map_file ''d/a.map''
     = Inr (demo_table, [''Pedestal object successfully created. 1 rows were added.''])
   \<and> foldl (apply_call demo_env map_file) demo_table
        [SetVal 0 0 (PInt 3), SetCol 0 (PInt 4), SetCols [''A''] (PInt 5),
         ImportTqRates ''rates.csv'']
      = demo_table\<lparr>entries := [[PInt 5]]\<rparr>
   \<and> currentfile (demo_table\<lparr>entries := [[PInt 5]]\<rparr>) = ''d/a.map''
   \<and> oldfile (demo_table\<lparr>entries := [[PInt 5]]\<rparr>) = ''d/a_old.map''
   \<and> map_file ''d/a_old.map'' = None
   \<and> fst (save demo_env (demo_table\<lparr>entries := [[PInt 5]]\<rparr>) map_file) ''d/a.map''
       = Some (''! Name            A       '' @ [CHR 0x0A]
               @ ''x                        5'' @ [CHR 0x0A])
   \<and> fst (save demo_env (demo_table\<lparr>entries := [[PInt 5]]\<rparr>) map_file) ''d/a_old.map'' = None
   \<and> snd (save demo_env (demo_table\<lparr>entries := [[PInt 5]]\<rparr>) map_file)
       = ([''Save successful.''], None)
   \<and> fst (save demo_env (demo_table\<lparr>entries := [[PInt 5]]\<rparr>) map_file) ''a.map''
       = map_file ''a.map''
   \<and> init demo_env map_file ''a.map''
       = Inr (demo_table\<lparr>path := []\<rparr>,
              [''Pedestal object successfully created. 1 rows were added.''])
   \<and> CHR ''/'' \<notin> set ''a.map''
   \<and> path (demo_table\<lparr>path := []\<rparr>) = []
   \<and> currentfile (demo_table\<lparr>path := []\<rparr>) = ''a.map''
   \<and> oldfile (demo_table\<lparr>path := []\<rparr>) = ''a_old.map''"
proof -
  have m: "map_file ''d/a_old.map'' = None"
    "map_file ''d/a.map'' = Some (header_line demo_table @ row_line demo_env ''x'' [PStr ''1''])"
    by (simp_all add: map_file_def)
  show ?thesis
    using save_targets_constructed_file [where calls = "[SetVal 0 0 (PInt 3), SetCol 0 (PInt 4),
          SetCols [''A''] (PInt 5), ImportTqRates ''rates.csv'']" and u = map_file
        and fs = map_file and fstr = "\<lambda>x. ''nan''" and rate = "\<lambda>s. py_int s"
        and csv = "\<lambda>body. Inr ([], None)", OF init_demo]
      save_targets_constructed_file [where calls = "[]" and u = map_file
        and fs = map_file and fstr = "\<lambda>x. ''nan''" and rate = "\<lambda>s. py_int s"
        and csv = "\<lambda>body. Inr ([], None)", OF init_flat]
    unfolding demo_env_mem [symmetric] demo_calls
    by (simp add: init_demo init_flat saved_paths m saved_write)
qed

end
